theory Spec2Isabelle
  imports Main
begin

section \<open>JavaScript strings\<close>

text \<open>
  A JavaScript string is a sequence of UTF-16 code units: \<^verbatim>\<open>length\<close>, \<^verbatim>\<open>slice\<close>,
  \<^verbatim>\<open>trim\<close>, \<^verbatim>\<open>endsWith\<close> and regular expressions without the \<^verbatim>\<open>u\<close> flag all
  count and compare code units. A string is therefore a list of code units, each a
  natural number; \<open>js\<close> turns an ASCII literal into such a list.
\<close>

type_synonym jsstring = "nat list"

definition js :: "string \<Rightarrow> jsstring" where
  "js s = map of_char s"

text \<open>\<^verbatim>\<open>String(n)\<close> and \<^verbatim>\<open>${n}\<close> for an integer \<open>n\<close>: the decimal digits, with a sign.\<close>

fun show_nat :: "nat \<Rightarrow> jsstring" where
  "show_nat n = (if n < 10 then [48 + n] else show_nat (n div 10) @ [48 + n mod 10])"

declare show_nat.simps [simp del]

definition show_int :: "int \<Rightarrow> jsstring" where
  "show_int i = (if i < 0 then js ''-'' @ show_nat (nat (- i)) else show_nat (nat i))"

definition endsWith :: "jsstring \<Rightarrow> jsstring \<Rightarrow> bool" where
  "endsWith s suf \<longleftrightarrow> length suf \<le> length s \<and> drop (length s - length suf) s = suf"

text \<open>
  The class \<^verbatim>\<open>\s\<close> of a regular expression, which is also what \<^verbatim>\<open>trim\<close> strips:
  tab, line feed, vertical tab, form feed, carriage return, space, U+00A0, U+1680,
  U+2000 to U+200A, U+2028, U+2029, U+202F, U+205F, U+3000 and U+FEFF.
\<close>

definition is_space :: "nat \<Rightarrow> bool" where
  "is_space c \<longleftrightarrow>
     c = 9 \<or> c = 10 \<or> c = 11 \<or> c = 12 \<or> c = 13 \<or> c = 32 \<or> c = 160 \<or> c = 5760 \<or>
     (8192 \<le> c \<and> c \<le> 8202) \<or> c = 8232 \<or> c = 8233 \<or> c = 8239 \<or> c = 8287 \<or>
     c = 12288 \<or> c = 65279"

definition trim :: "jsstring \<Rightarrow> jsstring" where
  "trim s = rev (dropWhile is_space (rev (dropWhile is_space s)))"

text \<open>
  \<^verbatim>\<open>s.replace(/[C]+/g, r)\<close> for a character class \<open>C\<close>: the scan goes left to right,
  and every maximal run of characters of the class is replaced by one copy of \<open>r\<close>.
\<close>

function replace_class_plus :: "(nat \<Rightarrow> bool) \<Rightarrow> jsstring \<Rightarrow> jsstring \<Rightarrow> jsstring" where
  "replace_class_plus C r [] = []"
| "replace_class_plus C r (c # cs) =
     (if C c then r @ replace_class_plus C r (dropWhile C cs)
      else c # replace_class_plus C r cs)"
  by pat_completeness auto
termination
  by (relation "measure (\<lambda>(C, r, s). length s)")
     (auto simp: length_dropWhile_le less_Suc_eq_le)

text \<open>
  \<^verbatim>\<open>s.replaceAll(pat, rep)\<close> for a non-empty literal \<open>pat\<close>: the occurrences are found
  left to right and do not overlap.
\<close>

function replaceAll :: "jsstring \<Rightarrow> jsstring \<Rightarrow> jsstring \<Rightarrow> jsstring" where
  "replaceAll pat rep [] = []"
| "replaceAll pat rep (c # cs) =
     (if pat \<noteq> [] \<and> take (length pat) (c # cs) = pat
      then rep @ replaceAll pat rep (drop (length pat) (c # cs))
      else c # replaceAll pat rep cs)"
  by pat_completeness auto
termination
  by (relation "measure (\<lambda>(pat, rep, s). length s)") auto

section \<open>Pure helpers of the module\<close>

text \<open>\<^verbatim>\<open>substituteSessionId\<close>: \<^verbatim>\<open>p.replaceAll("{sessionId}", sessionId)\<close>.\<close>

definition substituteSessionId :: "jsstring \<Rightarrow> jsstring \<Rightarrow> jsstring" where
  "substituteSessionId p sessionId = replaceAll (js ''{sessionId}'') sessionId p"

text \<open>
  \<^verbatim>\<open>safeSnippet\<close>. The literal appended after the slice is, in the source text as it
  stands, the three code units U+00E2, U+20AC, U+00A6 (a horizontal ellipsis whose
  UTF-8 bytes were read as single characters).
\<close>

definition ellipsis :: jsstring where
  "ellipsis = [226, 8364, 166]"

definition safeSnippet :: "jsstring \<Rightarrow> nat \<Rightarrow> jsstring" where
  "safeSnippet text maxChars =
     (let clean = trim (replace_class_plus is_space (js '' '') text)
      in if length clean \<le> maxChars then clean else take maxChars clean @ ellipsis)"

text \<open>
  \<^verbatim>\<open>extractFirstLinkedFilePath\<close>. The expression \<^verbatim>\<open>/\[[^\]]*]\(([^)]+)\)/g\<close> matches, from
  an opening bracket, everything up to the next closing bracket, which must be followed
  by an opening parenthesis, then a non-empty run of characters other than a closing
  parenthesis, then that parenthesis. Both negated classes are greedy and cannot give
  anything back that would help, so a match at a position is unique. \<open>match_link\<close>
  is the expression anchored at the head of the string; it yields the captured group
  and the text after the match. \<open>link_groups\<close> is \<^verbatim>\<open>matchAll\<close>: it resumes after a
  match, and one character further where there is none. \<open>link_candidates\<close> is the
  array \<^verbatim>\<open>candidates\<close> the loop fills (the trimmed groups that are not empty), and
  \<open>image_ext\<close> the test of \<^verbatim>\<open>candidates.find\<close>.
\<close>

definition match_link :: "jsstring \<Rightarrow> (jsstring \<times> jsstring) option" where
  "match_link s =
     (case s of
        [] \<Rightarrow> None
      | c # r \<Rightarrow>
          if c \<noteq> 91 then None
          else (case dropWhile (\<lambda>x. x \<noteq> 93) r of
                  a # b # r2 \<Rightarrow>
                    if b \<noteq> 40 then None
                    else (let g = takeWhile (\<lambda>x. x \<noteq> 41) r2;
                              r3 = dropWhile (\<lambda>x. x \<noteq> 41) r2
                          in if g \<noteq> [] \<and> r3 \<noteq> [] then Some (g, tl r3) else None)
                | _ \<Rightarrow> None))"

lemma match_link_shorter:
  assumes "match_link s = Some (g, rest)"
  shows "length rest < length s"
proof -
  from assms obtain c r where s: "s = c # r"
    by (cases s) (auto simp: match_link_def)
  from assms s obtain a b r2 where d: "dropWhile (\<lambda>x. x \<noteq> 93) r = a # b # r2"
    by (auto simp: match_link_def split: if_splits list.splits)
  from assms s d have rest: "rest = tl (dropWhile (\<lambda>x. x \<noteq> 41) r2)"
    by (auto simp: match_link_def Let_def split: if_splits)
  have "length (dropWhile (\<lambda>x. x \<noteq> 41) r2) \<le> length r2"
    by (rule length_dropWhile_le)
  then have "length rest \<le> length r2"
    unfolding rest by simp
  moreover have "length (a # b # r2) \<le> length r"
    unfolding d [symmetric] by (rule length_dropWhile_le)
  ultimately show ?thesis
    using s by simp
qed

function link_groups :: "jsstring \<Rightarrow> jsstring list" where
  "link_groups [] = []"
| "link_groups (c # cs) =
     (case match_link (c # cs) of
        Some (g, rest) \<Rightarrow> g # link_groups rest
      | None \<Rightarrow> link_groups cs)"
  by pat_completeness auto
termination
  by (relation "measure length") (auto dest: match_link_shorter)

definition link_candidates :: "jsstring \<Rightarrow> jsstring list" where
  "link_candidates text = filter (\<lambda>raw. raw \<noteq> []) (map trim (link_groups text))"

definition image_ext :: "jsstring \<Rightarrow> bool" where
  "image_ext p \<longleftrightarrow>
     endsWith p (js ''.png'') \<or> endsWith p (js ''.jpeg'') \<or> endsWith p (js ''.jpg'')"

definition extractFirstLinkedFilePath :: "jsstring \<Rightarrow> jsstring option" where
  "extractFirstLinkedFilePath text =
     (let preferred = find image_ext (link_candidates text)
      in case preferred of
           Some p \<Rightarrow> Some p
         | None \<Rightarrow> (case link_candidates text of [] \<Rightarrow> None | p # _ \<Rightarrow> Some p))"

section \<open>Data model\<close>

text \<open>
  Modelled from the spec: the declaration of \<^verbatim>\<open>PlaywrightMcpSection\<close> (\<^verbatim>\<open>config.js\<close>) is
  not among the sources. The fields are the configuration surface the specification
  lists (package, host, port_start, port_end, browser, user_data_dir, output_dir,
  snapshot_mode, image_responses, headless, an optional executable_path, timeout_ms),
  at the types the module uses them at.
\<close>

record config =
  package :: jsstring
  host :: jsstring
  port_start :: int
  port_end :: int
  browser :: jsstring
  user_data_dir :: jsstring
  output_dir :: jsstring
  snapshot_mode :: jsstring
  image_responses :: jsstring
  headless :: bool
  executable_path :: "jsstring option"
  timeout_ms :: int

text \<open>\<^verbatim>\<open>PlaywrightServerInfo\<close>, \<^verbatim>\<open>ScreenshotResult\<close> and the argument of \<^verbatim>\<open>takeScreenshot\<close>.\<close>

record PlaywrightServerInfo =
  port :: int
  url :: jsstring
  userDataDir :: jsstring
  outputDir :: jsstring

record ScreenshotResult =
  savedPath :: "jsstring option"
  mimeType :: "jsstring option"

record screenshot_opts =
  sessionId :: jsstring
  callId :: "jsstring option"
  tool :: "jsstring option"

text \<open>
  Thrown values. The module itself throws at two places, the end of \<^verbatim>\<open>findAvailablePort\<close>
  and the end of \<^verbatim>\<open>waitForPortOpen\<close>; everything else that can be thrown comes out of a
  library call and is kept as \<open>Thrown s\<close>, where \<open>s\<close> is what \<^verbatim>\<open>String(e)\<close> gives.
  One library error has a constructor of its own: \<open>BadPort p\<close> is the \<^verbatim>\<open>RangeError\<close> with
  the code \<^verbatim>\<open>ERR_SOCKET_BAD_PORT\<close> that \<^verbatim>\<open>net.Server.listen\<close> throws when it is given a
  number \<open>p\<close> that is not a port. No path of the module prints it; its text below is
  the one of current Node.js releases.
\<close>

datatype error =
    PortExhausted int int
  | StartTimeout jsstring int
  | BadPort int
  | Thrown jsstring

fun String_of_error :: "error \<Rightarrow> jsstring" where
  "String_of_error (PortExhausted start endp) =
     js ''Error: No open port found for Playwright MCP between '' @ show_int start
       @ js '' and '' @ show_int endp"
| "String_of_error (StartTimeout h p) =
     js ''Error: Timed out waiting for Playwright MCP on '' @ h @ js '':'' @ show_int p"
| "String_of_error (BadPort p) =
     js ''RangeError [ERR_SOCKET_BAD_PORT]: options.port should be >= 0 and < 65536. ''
       @ js ''Received type number ('' @ show_int p @ js '').''"
| "String_of_error (Thrown s) = s"

text \<open>
  The result of a tool call is untyped in the source (\<^verbatim>\<open>res: any\<close>). The code reads
  \<^verbatim>\<open>isError\<close> (compared with \<^verbatim>\<open>true\<close>), whether \<^verbatim>\<open>content\<close> is an array, and of each
  element its \<^verbatim>\<open>type\<close>, and its \<^verbatim>\<open>text\<close>, \<^verbatim>\<open>data\<close> and \<^verbatim>\<open>mimeType\<close> where they are
  strings. A field is \<open>None\<close> when it is absent or not a string; \<open>content\<close> is \<open>None\<close>
  when it is not an array. An element that is not an object behaves like a block with
  every field \<open>None\<close>, and a null result like \<open>isError = False, content = None\<close>.
  (Only the error branch reads \<^verbatim>\<open>content[0]\<close> without asking for an array; a content
  that is not an array, which the protocol's result type excludes, is taken to have no
  first element there.)
\<close>

record block =
  btype :: "jsstring option"
  btext :: "jsstring option"
  bdata :: "jsstring option"
  bmimeType :: "jsstring option"

record tool_response =
  isError :: bool
  content :: "block list option"

text \<open>
  A parsed URL: the part before the path, the path, and the query and fragment.
  A transport is addressed at a URL, and a client is what \<^verbatim>\<open>connect\<close> left connected
  over a transport.
\<close>

record parsed_url =
  origin :: jsstring
  pathname :: jsstring
  search_hash :: jsstring

datatype transport = StreamableHTTPClientTransport parsed_url | SSEClientTransport parsed_url

datatype client = Client transport

text \<open>
  A child process as the module sees it: the arguments it was spawned with, the
  \<^verbatim>\<open>killed\<close> flag (set when \<^verbatim>\<open>kill\<close> delivered a signal), and the exit code and signal
  that the exit event reports. A process that was ended by a signal has a signal code
  and no exit code.
\<close>

record child_process =
  spawnargs :: "jsstring list"
  killed :: bool
  exitCode :: "int option"
  signalCode :: "jsstring option"

record started =
  info :: PlaywrightServerInfo
  child :: nat

datatype level = Info | Warn | Debug

text \<open>
  The state: the two fields of the manager, and what the module did to the outside.
  A cached promise is kept as its outcome (\<open>Inl\<close> a rejection). Child processes are
  objects shared between the cached start result and the handlers, so they live in a
  store, \<open>children\<close>, addressed by the order of spawning; \<open>spawned\<close> counts them.
  \<open>timers\<close> holds the children with a pending two-second escalation.
\<close>

record world =
  startPromise :: "(error + started) option"
  clientPromise :: "(error + client) option"
  children :: "nat \<Rightarrow> child_process"
  spawned :: nat
  timers :: "nat list"
  logs :: "(level \<times> jsstring) list"
  connects :: "transport list"
  closes :: "client list"
  tool_calls :: "jsstring list"
  writes :: "(jsstring \<times> nat list) list"

text \<open>
  What the outside answers during one call: the results of the library and system
  calls the module makes. \<^verbatim>\<open>waitForPortOpen\<close> polls the port against the wall clock and
  sleeps 250 ms after a failed attempt, so only finitely many rounds of its loop start
  before the deadline; \<open>canConnect e host port timeoutMs\<close> lists the answers of
  \<^verbatim>\<open>canConnect\<close> in those rounds. \<open>listen e host port\<close> is what happens when a fresh
  server is asked to listen on a port between 0 and 65535: true when it gets to listen
  (and is closed again), false when it emits \<^verbatim>\<open>error\<close>. A call runs to its end before the
  next call or event: the calls of one manager are not interleaved here.
\<close>

record env =
  mkdir :: "jsstring \<Rightarrow> error option"
  listen :: "jsstring \<Rightarrow> int \<Rightarrow> bool"
  CHROME_PATH :: "jsstring option"
  access :: "jsstring \<Rightarrow> bool"
  canConnect :: "jsstring \<Rightarrow> int \<Rightarrow> int \<Rightarrow> bool list"
  new_URL :: "jsstring \<Rightarrow> parsed_url option"
  connect :: "transport \<Rightarrow> error option"
  close :: "client \<Rightarrow> error option"
  callTool :: "jsstring \<Rightarrow> error + tool_response"
  writeFile :: "jsstring \<Rightarrow> nat list \<Rightarrow> error option"
  Buffer_from_base64 :: "jsstring \<Rightarrow> nat list"
  path_join :: "jsstring \<Rightarrow> jsstring \<Rightarrow> jsstring"
  path_dirname :: "jsstring \<Rightarrow> jsstring"
  Date_now :: nat

text \<open>
  Modelled from the spec: the \<^verbatim>\<open>Logger\<close> of \<^verbatim>\<open>log.js\<close> is not among the sources. The
  specification describes it as a capability with the levels info, warn and debug;
  a call appends the message to the log and returns.
\<close>

definition logger :: "level \<Rightarrow> jsstring \<Rightarrow> world \<Rightarrow> world" where
  "logger lv msg w = w\<lparr>logs := logs w @ [(lv, msg)]\<rparr>"

section \<open>Port allocation\<close>

text \<open>
  \<^verbatim>\<open>tryPort\<close> creates a server and calls \<^verbatim>\<open>srv.listen(port, host, ...)\<close> inside the executor
  of the promise it returns. \<^verbatim>\<open>listen\<close> checks the port before anything else: given a
  number outside 0 to 65535 it throws the \<^verbatim>\<open>RangeError\<close> \<^verbatim>\<open>ERR_SOCKET_BAD_PORT\<close>, and a
  throw inside the executor rejects the promise. For a port the promise resolves, to
  \<^verbatim>\<open>true\<close> from the callback of \<^verbatim>\<open>listen\<close> after the server is closed, or to \<^verbatim>\<open>false\<close> from
  the handler of \<^verbatim>\<open>error\<close>. Ports are whole numbers here, as in the configuration.
\<close>

definition tryPort :: "env \<Rightarrow> jsstring \<Rightarrow> int \<Rightarrow> error + bool" where
  "tryPort e h p = (if 0 \<le> p \<and> p \<le> 65535 then Inr (listen e h p) else Inl (BadPort p))"

text \<open>
  \<^verbatim>\<open>findAvailablePort\<close>: the loop \<^verbatim>\<open>for (let port = start; port <= end; port++)\<close> with
  \<^verbatim>\<open>await tryPort(host, port)\<close> in its body. A rejection of the probe leaves the loop and
  rejects the call; \<^verbatim>\<open>true\<close> returns the port; \<^verbatim>\<open>false\<close> goes on to the next port.
  \<open>findAvailablePort_from\<close> is the loop from the current \<open>port\<close>; it gives \<open>None\<close> when the
  loop ends, and then the call throws its own error.
\<close>

function findAvailablePort_from ::
  "(int \<Rightarrow> error + bool) \<Rightarrow> int \<Rightarrow> int \<Rightarrow> (error + int) option" where
  "findAvailablePort_from probe p endp =
     (if p \<le> endp
      then (case probe p of
              Inl err \<Rightarrow> Some (Inl err)
            | Inr ok \<Rightarrow> if ok then Some (Inr p) else findAvailablePort_from probe (p + 1) endp)
      else None)"
  by pat_completeness auto
termination
  by (relation "measure (\<lambda>(probe, p, endp). nat (endp + 1 - p))") auto

declare findAvailablePort_from.simps [simp del]

definition findAvailablePort :: "env \<Rightarrow> jsstring \<Rightarrow> int \<Rightarrow> int \<Rightarrow> error + int" where
  "findAvailablePort e h start endp =
     (case findAvailablePort_from (tryPort e h) start endp of
        Some r \<Rightarrow> r
      | None \<Rightarrow> Inl (PortExhausted start endp))"

section \<open>Starting and supervising the server process\<close>

definition backslash :: jsstring where
  "backslash = [92]"

definition findChromeExecutable :: "env \<Rightarrow> jsstring option" where
  "findChromeExecutable e =
     find (access e)
       (filter (\<lambda>p. p \<noteq> [])
          ((case CHROME_PATH e of None \<Rightarrow> [] | Some p \<Rightarrow> [p]) @
           [js ''/usr/bin/google-chrome'',
            js ''/usr/bin/google-chrome-stable'',
            js ''/usr/bin/chromium-browser'',
            js ''/usr/bin/chromium'',
            js ''/Applications/Google Chrome.app/Contents/MacOS/Google Chrome'',
            js ''C:'' @ backslash @ js ''Program Files'' @ backslash @ js ''Google''
              @ backslash @ js ''Chrome'' @ backslash @ js ''Application'' @ backslash
              @ js ''chrome.exe'',
            js ''C:'' @ backslash @ js ''Program Files (x86)'' @ backslash @ js ''Google''
              @ backslash @ js ''Chrome'' @ backslash @ js ''Application'' @ backslash
              @ js ''chrome.exe'']))"

text \<open>
  \<^verbatim>\<open>buildPlaywrightArgs\<close>, its options in the order of the source's declaration: pkg,
  host, port, browser, userDataDir, outputDir, snapshotMode, imageResponses, headless,
  executablePath, timeoutMs, userAgent, viewportSize. An optional string counts when it
  is present and not empty.
\<close>

definition optional_flag :: "jsstring \<Rightarrow> jsstring option \<Rightarrow> jsstring list" where
  "optional_flag flag v =
     (case v of None \<Rightarrow> [] | Some t \<Rightarrow> if t \<noteq> [] then [flag, t] else [])"

definition buildPlaywrightArgs ::
  "jsstring \<Rightarrow> jsstring \<Rightarrow> int \<Rightarrow> jsstring \<Rightarrow> jsstring \<Rightarrow> jsstring \<Rightarrow> jsstring \<Rightarrow> jsstring
    \<Rightarrow> bool \<Rightarrow> jsstring option \<Rightarrow> int \<Rightarrow> jsstring option \<Rightarrow> jsstring option \<Rightarrow> jsstring list" where
  "buildPlaywrightArgs pkg h p br udd od sm ir hl ep tm ua vs =
     [js ''-y'', pkg,
      js ''--browser'', br,
      js ''--host'', h,
      js ''--port'', show_int p,
      js ''--user-data-dir'', udd,
      js ''--output-dir'', od,
      js ''--snapshot-mode'', sm,
      js ''--image-responses'', ir,
      js ''--shared-browser-context'',
      js ''--timeout-navigation'', show_int (max 1000 (min tm 60000))]
     @ optional_flag (js ''--user-agent'') ua
     @ optional_flag (js ''--viewport-size'') vs
     @ optional_flag (js ''--executable-path'') ep
     @ (if hl then [js ''--headless''] else [])"

text \<open>
  \<^verbatim>\<open>spawn("npx", args, ...)\<close> makes a new child object: not killed, no exit code, no
  signal code. \<^verbatim>\<open>child.kill(signal)\<close> delivers the signal to a process that has not
  ended, sets \<^verbatim>\<open>killed\<close> and answers true; on a process that has ended it changes
  nothing and answers false.
\<close>

definition spawn :: "jsstring list \<Rightarrow> world \<Rightarrow> nat \<times> world" where
  "spawn args w =
     (spawned w,
      w\<lparr>children := (children w)
           (spawned w := \<lparr>spawnargs = args, killed = False, exitCode = None, signalCode = None\<rparr>),
        spawned := Suc (spawned w)\<rparr>)"

definition exited :: "child_process \<Rightarrow> bool" where
  "exited c \<longleftrightarrow> \<not> (exitCode c = None \<and> signalCode c = None)"

definition kill :: "nat \<Rightarrow> world \<Rightarrow> bool \<times> world" where
  "kill c w =
     (if exited (children w c) then (False, w)
      else (True, w\<lparr>children := (children w)(c := (children w c)\<lparr>killed := True\<rparr>)\<rparr>))"

text \<open>
  The callback of \<^verbatim>\<open>setTimeout(..., 2_000)\<close> that both \<^verbatim>\<open>stop\<close> and the failure path of
  \<^verbatim>\<open>startServer\<close> register: \<^verbatim>\<open>if (!child.killed) child.kill("SIGKILL")\<close>.
\<close>

definition escalate :: "nat \<Rightarrow> world \<Rightarrow> world" where
  "escalate c w =
     (let w1 = w\<lparr>timers := remove1 c (timers w)\<rparr>
      in if \<not> killed (children w1 c) then snd (kill c w1) else w1)"

definition show_bool :: "bool \<Rightarrow> jsstring" where
  "show_bool b = (if b then js ''true'' else js ''false'')"

text \<open>
  \<^verbatim>\<open>waitForPortOpen\<close>: the loop returns at the first round whose connection attempt
  succeeds, and throws when the deadline has passed. \<^verbatim>\<open>startServer\<close> calls it with the
  port that \<^verbatim>\<open>findAvailablePort\<close> returned, which lies between 0 and 65535 (lemma
  \<open>findAvailablePort_port\<close>), so \<^verbatim>\<open>net.connect\<close> in \<^verbatim>\<open>canConnect\<close> accepts it and every attempt
  ends with an answer.
\<close>

fun waitForPortOpen_rounds :: "bool list \<Rightarrow> bool" where
  "waitForPortOpen_rounds [] = False"
| "waitForPortOpen_rounds (ok # rest) = (if ok then True else waitForPortOpen_rounds rest)"

definition waitForPortOpen :: "env \<Rightarrow> jsstring \<Rightarrow> int \<Rightarrow> int \<Rightarrow> error option" where
  "waitForPortOpen e h p timeoutMs =
     (if waitForPortOpen_rounds (canConnect e h p timeoutMs) then None
      else Some (StartTimeout h p))"

text \<open>
  \<^verbatim>\<open>startServer\<close>. The handlers on the child's output streams only log and are left
  out; the exit handler is \<open>child_exit\<close> below.
\<close>

definition startServer :: "config \<Rightarrow> env \<Rightarrow> world \<Rightarrow> (error + started) \<times> world" where
  "startServer cfg e w =
     (let udd = substituteSessionId (user_data_dir cfg) (js ''shared'');
          od = substituteSessionId (output_dir cfg) (js ''shared'')
      in case mkdir e udd of
           Some err \<Rightarrow> (Inl err, w)
         | None \<Rightarrow>
      (case mkdir e od of
           Some err \<Rightarrow> (Inl err, w)
         | None \<Rightarrow>
      (case findAvailablePort e (host cfg) (port_start cfg) (port_end cfg) of
           Inl err \<Rightarrow> (Inl err, w)
         | Inr p \<Rightarrow>
      (let ep = (case executable_path cfg of Some x \<Rightarrow> Some x | None \<Rightarrow> findChromeExecutable e);
           args = buildPlaywrightArgs (package cfg) (host cfg) p (browser cfg) udd od
                    (snapshot_mode cfg) (image_responses cfg) (headless cfg) ep
                    (timeout_ms cfg) None None;
           w1 = logger Info
                  (js ''[playwright-mcp] starting on '' @ host cfg @ js '':'' @ show_int p
                   @ js '' browser='' @ browser cfg
                   @ js '' headless='' @ show_bool (headless cfg)
                   @ js '' executable_path=''
                   @ (case ep of Some x \<Rightarrow> x | None \<Rightarrow> js ''(playwright default)'')
                   @ js '' output_dir='' @ od) w;
           (c, w2) = spawn args w1
       in case waitForPortOpen e (host cfg) p (timeout_ms cfg) of
            None \<Rightarrow>
              (Inr \<lparr>info = \<lparr>port = p,
                              url = js ''http://'' @ host cfg @ js '':'' @ show_int p
                                    @ js ''/mcp'',
                              userDataDir = udd, outputDir = od\<rparr>,
                     child = c\<rparr>, w2)
          | Some err \<Rightarrow>
              (let w3 = logger Warn
                          (js ''[playwright-mcp] failed to start on '' @ host cfg @ js '':''
                           @ show_int p @ js '': '' @ String_of_error err) w2;
                   w4 = snd (kill c w3)
               in (Inl err, w4\<lparr>timers := timers w4 @ [c]\<rparr>))))))"

text \<open>
  The handler \<^verbatim>\<open>child.on("exit", (code, signal) => ...)\<close>, run when the child \<open>c\<close> ends
  with the given code and signal: the child records them, the handler logs and clears
  both cached promises.
\<close>

definition show_code :: "int option \<Rightarrow> jsstring" where
  "show_code v = (case v of None \<Rightarrow> js ''null'' | Some i \<Rightarrow> show_int i)"

definition show_signal :: "jsstring option \<Rightarrow> jsstring" where
  "show_signal v = (case v of None \<Rightarrow> js ''null'' | Some t \<Rightarrow> t)"

definition child_exit :: "nat \<Rightarrow> int option \<Rightarrow> jsstring option \<Rightarrow> world \<Rightarrow> world" where
  "child_exit c code signal w =
     (let w1 = w\<lparr>children := (children w)
                  (c := (children w c)\<lparr>exitCode := code, signalCode := signal\<rparr>)\<rparr>;
          w2 = logger Warn
                 (js ''[playwright-mcp] exited code='' @ show_code code
                  @ js '' signal='' @ show_signal signal) w1
      in w2\<lparr>startPromise := None, clientPromise := None\<rparr>)"

text \<open>
  \<^verbatim>\<open>ensureServer\<close>. The test of the cached start is the source's
  \<^verbatim>\<open>!started.child.killed && started.child.exitCode === null\<close>. \<open>start_attempt\<close> is the
  second half of the method: the call of \<^verbatim>\<open>startServer\<close> with the \<^verbatim>\<open>catch\<close> handler that
  clears both promises and rethrows, and the assignment to \<^verbatim>\<open>startPromise\<close>.
\<close>

definition alive :: "child_process \<Rightarrow> bool" where
  "alive c \<longleftrightarrow> \<not> killed c \<and> exitCode c = None"

definition start_attempt :: "config \<Rightarrow> env \<Rightarrow> world \<Rightarrow> (error + PlaywrightServerInfo) \<times> world" where
  "start_attempt cfg e w =
     (case startServer cfg e w of
        (Inl err, w') \<Rightarrow> (Inl err, w'\<lparr>startPromise := None, clientPromise := None\<rparr>)
      | (Inr st, w') \<Rightarrow> (Inr (info st), w'\<lparr>startPromise := Some (Inr st)\<rparr>))"

definition ensureServer :: "config \<Rightarrow> env \<Rightarrow> world \<Rightarrow> (error + PlaywrightServerInfo) \<times> world" where
  "ensureServer cfg e w =
     (case startPromise w of
        None \<Rightarrow> start_attempt cfg e w
      | Some (Inl err) \<Rightarrow> (Inl err, w)
      | Some (Inr st) \<Rightarrow>
          if alive (children w (child st)) then (Inr (info st), w)
          else start_attempt cfg e (w\<lparr>startPromise := None, clientPromise := None\<rparr>))"

text \<open>
  \<^verbatim>\<open>stop\<close>. A rejected cached promise counts as \<^verbatim>\<open>null\<close> (\<^verbatim>\<open>.catch(() => null)\<close>); an
  error of \<^verbatim>\<open>client.close()\<close> is swallowed.
\<close>

definition stop :: "env \<Rightarrow> world \<Rightarrow> world" where
  "stop e w =
     (let w1 = (case clientPromise w of
                  Some (Inr cl) \<Rightarrow>
                    (case close e cl of
                       None \<Rightarrow> w\<lparr>closes := closes w @ [cl]\<rparr>
                     | Some err \<Rightarrow> w\<lparr>closes := closes w @ [cl]\<rparr>)
                | _ \<Rightarrow> w)
      in case startPromise w1 of
           Some (Inr st) \<Rightarrow>
             if \<not> killed (children w1 (child st))
             then (let w2 = snd (kill (child st) w1)
                   in w2\<lparr>timers := timers w2 @ [child st]\<rparr>)
             else w1
         | _ \<Rightarrow> w1)"

section \<open>Negotiating the client\<close>

text \<open>
  \<^verbatim>\<open>createClient\<close>. \<^verbatim>\<open>new URL(server.url)\<close> throws a \<^verbatim>\<open>TypeError\<close> on a string that is
  not a URL, before the \<^verbatim>\<open>try\<close>. \<open>sse_pathname\<close> is the rewrite of the path,
  \<^verbatim>\<open>pathname.replace(/\/mcp$/, "") + "/sse"\<close>: without the \<^verbatim>\<open>m\<close> flag, \<^verbatim>\<open>$\<close> is the end
  of the string.
\<close>

definition sse_pathname :: "jsstring \<Rightarrow> jsstring" where
  "sse_pathname p =
     (if endsWith p (js ''/mcp'') then take (length p - 4) p else p) @ js ''/sse''"

definition createClient :: "env \<Rightarrow> PlaywrightServerInfo \<Rightarrow> world \<Rightarrow> (error + client) \<times> world" where
  "createClient e server w =
     (case new_URL e (url server) of
        None \<Rightarrow> (Inl (Thrown (js ''TypeError: Invalid URL'')), w)
      | Some u \<Rightarrow>
          (let primary = StreamableHTTPClientTransport u;
               w1 = w\<lparr>connects := connects w @ [primary]\<rparr>
           in case connect e primary of
                None \<Rightarrow> (Inr (Client primary), w1)
              | Some err \<Rightarrow>
                  (let w2 = logger Warn
                              (js ''[playwright-mcp] streamable HTTP connect failed (''
                               @ String_of_error err @ js ''), falling back to SSE'') w1;
                       fallback = SSEClientTransport (u\<lparr>pathname := sse_pathname (pathname u)\<rparr>);
                       w3 = w2\<lparr>connects := connects w2 @ [fallback]\<rparr>
                   in case connect e fallback of
                        None \<Rightarrow> (Inr (Client fallback), w3)
                      | Some err2 \<Rightarrow> (Inl err2, w3))))"

text \<open>
  \<^verbatim>\<open>ensureClient\<close>: a cached promise, whatever its outcome, is returned as it is;
  otherwise the promise of \<^verbatim>\<open>createClient\<close> is cached and returned.
\<close>

definition ensureClient :: "env \<Rightarrow> PlaywrightServerInfo \<Rightarrow> world \<Rightarrow> (error + client) \<times> world" where
  "ensureClient e server w =
     (case clientPromise w of
        Some r \<Rightarrow> (r, w)
      | None \<Rightarrow>
          (case createClient e server w of
             (r, w') \<Rightarrow> (r, w'\<lparr>clientPromise := Some r\<rparr>)))"

section \<open>Taking a screenshot\<close>

text \<open>
  The character class of \<^verbatim>\<open>/[^A-Za-z0-9_-]+/g\<close> is the complement of \<open>tool_char\<close>, and
  \<open>sanitize\<close> is \<^verbatim>\<open>opts.tool.replace(/[^A-Za-z0-9_-]+/g, "-")\<close>. \<open>safeTool\<close>,
  \<open>relFileName\<close> and \<open>expectedPath\<close> are the constants of the same names in
  \<^verbatim>\<open>takeScreenshot\<close>; a tool that is absent or empty is falsy and gives \<^verbatim>\<open>"call"\<close>.
\<close>

definition tool_char :: "nat \<Rightarrow> bool" where
  "tool_char c \<longleftrightarrow>
     (65 \<le> c \<and> c \<le> 90) \<or> (97 \<le> c \<and> c \<le> 122) \<or> (48 \<le> c \<and> c \<le> 57) \<or> c = 95 \<or> c = 45"

definition sanitize :: "jsstring \<Rightarrow> jsstring" where
  "sanitize t = replace_class_plus (\<lambda>c. \<not> tool_char c) (js ''-'') t"

definition safeTool :: "screenshot_opts \<Rightarrow> jsstring" where
  "safeTool opts =
     (case tool opts of
        None \<Rightarrow> js ''call''
      | Some t \<Rightarrow> if t = [] then js ''call'' else sanitize t)"

definition relFileName :: "env \<Rightarrow> screenshot_opts \<Rightarrow> jsstring" where
  "relFileName e opts =
     path_join e (sessionId opts)
       ((if safeTool opts = [] then js ''call'' else safeTool opts)
        @ js ''-'' @ (case callId opts of None \<Rightarrow> js ''auto'' | Some c \<Rightarrow> c)
        @ js ''-'' @ show_nat (Date_now e) @ js ''.png'')"

definition expectedPath :: "env \<Rightarrow> PlaywrightServerInfo \<Rightarrow> screenshot_opts \<Rightarrow> jsstring" where
  "expectedPath e server opts = path_join e (outputDir server) (relFileName e opts)"

text \<open>
  The body of the \<^verbatim>\<open>try\<close> block of \<^verbatim>\<open>takeScreenshot\<close>, from the tool call to the last
  \<^verbatim>\<open>return null\<close>, is \<open>screenshot_try\<close>; \<open>Inl\<close> is an error thrown inside the block, by
  the tool call or by \<^verbatim>\<open>writeFile\<close>. \<open>interpret_response\<close> is the part after the call.
  The constants of the block keep their names: \<open>imageBlock\<close> (the first element of type
  image), \<open>base64\<close> (its data, when a string), \<open>fromText\<close> (the text of the first element
  of type text whose text is a string), \<open>linkedPath\<close>, \<open>candidates\<close>; \<open>image_mimeType\<close> is
  the constant \<^verbatim>\<open>mimeType\<close> and \<open>tool_error_text\<close> the constant \<^verbatim>\<open>msg\<close> (the text of the
  first content element when it is a string, else the empty string). \<open>scan_candidates\<close>
  is the loop over the candidates, which returns the first one that \<^verbatim>\<open>access\<close> accepts.
  \<^verbatim>\<open>if (base64)\<close> holds of a string that is not empty.
\<close>

definition imageBlock :: "tool_response \<Rightarrow> block option" where
  "imageBlock res =
     (case content res of
        Some bs \<Rightarrow> find (\<lambda>c. btype c = Some (js ''image'')) bs
      | None \<Rightarrow> None)"

definition image_mimeType :: "tool_response \<Rightarrow> jsstring option" where
  "image_mimeType res = (case imageBlock res of Some b \<Rightarrow> bmimeType b | None \<Rightarrow> None)"

definition base64 :: "tool_response \<Rightarrow> jsstring option" where
  "base64 res = (case imageBlock res of Some b \<Rightarrow> bdata b | None \<Rightarrow> None)"

definition fromText :: "tool_response \<Rightarrow> jsstring option" where
  "fromText res =
     (case content res of
        Some bs \<Rightarrow>
          (case find (\<lambda>c. btype c = Some (js ''text'') \<and> btext c \<noteq> None) bs of
             Some b \<Rightarrow> btext b
           | None \<Rightarrow> None)
      | None \<Rightarrow> None)"

definition linkedPath :: "tool_response \<Rightarrow> jsstring option" where
  "linkedPath res =
     (case fromText res of Some t \<Rightarrow> extractFirstLinkedFilePath t | None \<Rightarrow> None)"

definition candidates :: "jsstring \<Rightarrow> tool_response \<Rightarrow> jsstring list" where
  "candidates expected res =
     filter (\<lambda>p. p \<noteq> [])
       ((case linkedPath res of Some p \<Rightarrow> [p] | None \<Rightarrow> []) @ [expected])"

definition scan_candidates :: "env \<Rightarrow> jsstring \<Rightarrow> tool_response \<Rightarrow> ScreenshotResult option" where
  "scan_candidates e expected res =
     (case find (access e) (candidates expected res) of
        Some c \<Rightarrow> Some \<lparr>savedPath = Some c, mimeType = image_mimeType res\<rparr>
      | None \<Rightarrow> None)"

definition tool_error_text :: "tool_response \<Rightarrow> jsstring" where
  "tool_error_text res =
     (case content res of
        Some (b # _) \<Rightarrow> (case btext b of Some t \<Rightarrow> t | None \<Rightarrow> [])
      | _ \<Rightarrow> [])"

definition interpret_response ::
  "env \<Rightarrow> jsstring \<Rightarrow> tool_response \<Rightarrow> world \<Rightarrow> (error + ScreenshotResult option) \<times> world" where
  "interpret_response e expected res w =
     (if isError res then
        (let msg = tool_error_text res
         in (Inr None,
             logger Debug (js ''[playwright-mcp] screenshot tool error: '' @ safeSnippet msg 240) w))
      else
        (case base64 res of
           Some d \<Rightarrow>
             if d \<noteq> [] then
               (let buf = Buffer_from_base64 e d
                in case writeFile e expected buf of
                     Some err \<Rightarrow> (Inl err, w)
                   | None \<Rightarrow>
                       (Inr (Some \<lparr>savedPath = Some expected, mimeType = image_mimeType res\<rparr>),
                        w\<lparr>writes := writes w @ [(expected, buf)]\<rparr>))
             else (Inr (scan_candidates e expected res), w)
         | None \<Rightarrow> (Inr (scan_candidates e expected res), w)))"

definition screenshot_try ::
  "env \<Rightarrow> jsstring \<Rightarrow> jsstring \<Rightarrow> world \<Rightarrow> (error + ScreenshotResult option) \<times> world" where
  "screenshot_try e rel expected w =
     (let w1 = w\<lparr>tool_calls := tool_calls w @ [rel]\<rparr>
      in case callTool e rel of
           Inl err \<Rightarrow> (Inl err, w1)
         | Inr res \<Rightarrow> interpret_response e expected res w1)"

text \<open>
  \<^verbatim>\<open>takeScreenshot\<close>. The server, the client and the directory of the expected path
  come before the \<^verbatim>\<open>try\<close>; the \<^verbatim>\<open>catch\<close> logs and returns \<^verbatim>\<open>null\<close>.
\<close>

definition takeScreenshot ::
  "config \<Rightarrow> env \<Rightarrow> screenshot_opts \<Rightarrow> world \<Rightarrow> (error + ScreenshotResult option) \<times> world" where
  "takeScreenshot cfg e opts w =
     (case ensureServer cfg e w of
        (Inl err, w1) \<Rightarrow> (Inl err, w1)
      | (Inr server, w1) \<Rightarrow>
     (case ensureClient e server w1 of
        (Inl err, w2) \<Rightarrow> (Inl err, w2)
      | (Inr cl, w2) \<Rightarrow>
     (case mkdir e (path_dirname e (expectedPath e server opts)) of
        Some err \<Rightarrow> (Inl err, w2)
      | None \<Rightarrow>
     (case screenshot_try e (relFileName e opts) (expectedPath e server opts) w2 of
        (Inl err, w3) \<Rightarrow>
          (Inr None,
           logger Debug (js ''[playwright-mcp] screenshot failed: '' @ String_of_error err) w3)
      | (Inr r, w3) \<Rightarrow> (Inr r, w3)))))"

text \<open>A manager as its constructor leaves it, in a world where nothing has happened.\<close>

definition new_world :: world where
  "new_world =
     \<lparr>startPromise = None, clientPromise = None,
      children = (\<lambda>c. \<lparr>spawnargs = [], killed = False, exitCode = None, signalCode = None\<rparr>),
      spawned = 0, timers = [], logs = [], connects = [], closes = [],
      tool_calls = [], writes = []\<rparr>"

section \<open>The specification's words\<close>

text \<open>
  Three notions of the specification, written down from its words to be compared with
  the code. \<open>spec_sanitize\<close>: "replace any character outside \<^verbatim>\<open>[A-Za-z0-9_-]\<close> with
  \<^verbatim>\<open>-\<close>", character by character. \<open>spec_has_image_data\<close>: "the response contains an
  inline image block with base64-encoded data". \<open>ws_collapsed\<close>: a text is
  whitespace-collapsed when every whitespace character in it is a space that is not
  followed by another whitespace character.
\<close>

definition spec_sanitize :: "jsstring \<Rightarrow> jsstring" where
  "spec_sanitize t = map (\<lambda>c. if tool_char c then c else 45) t"

definition spec_has_image_data :: "tool_response \<Rightarrow> bool" where
  "spec_has_image_data res =
     (case content res of
        None \<Rightarrow> False
      | Some bs \<Rightarrow>
          list_ex (\<lambda>b. btype b = Some (js ''image'')
                        \<and> (case bdata b of Some d \<Rightarrow> d \<noteq> [] | None \<Rightarrow> False)) bs)"

fun ws_collapsed :: "jsstring \<Rightarrow> bool" where
  "ws_collapsed [] = True"
| "ws_collapsed [c] = (is_space c \<longrightarrow> c = 32)"
| "ws_collapsed (a # b # cs) =
     ((is_space a \<longrightarrow> a = 32 \<and> \<not> is_space b) \<and> ws_collapsed (b # cs))"

section \<open>Concrete inputs\<close>

text \<open>
  A configuration with the port range 5000 to 5002, and an outside world in which
  every call succeeds: directories can be made, every port is free, the spawned server
  opens its port at the second attempt, the primary transport connects, and the tool
  answers with an empty content list. No file exists, and the only base64 text decoded
  is \<^verbatim>\<open>QUJD\<close>, to the bytes of \<^verbatim>\<open>ABC\<close>. The examples below vary it field by field.
\<close>

definition example_config :: config where
  "example_config =
     \<lparr>package = js ''@playwright/mcp@latest'', host = js ''127.0.0.1'',
      port_start = 5000, port_end = 5002, browser = js ''chrome'',
      user_data_dir = js ''/tmp/pw/{sessionId}/profile'',
      output_dir = js ''/tmp/pw/{sessionId}/out'',
      snapshot_mode = js ''incremental'', image_responses = js ''allow'',
      headless = True, executable_path = None, timeout_ms = 30000\<rparr>"

definition example_env :: env where
  "example_env =
     \<lparr>mkdir = (\<lambda>p. None), listen = (\<lambda>h p. True), CHROME_PATH = None,
      access = (\<lambda>p. False), canConnect = (\<lambda>h p t. [False, True]),
      new_URL = (\<lambda>s. Some \<lparr>origin = js ''http://127.0.0.1:5000'', pathname = js ''/mcp'',
                              search_hash = []\<rparr>),
      connect = (\<lambda>t. None), close = (\<lambda>c. None),
      callTool = (\<lambda>f. Inr \<lparr>isError = False, content = Some []\<rparr>),
      writeFile = (\<lambda>p b. None),
      Buffer_from_base64 = (\<lambda>d. if d = js ''QUJD'' then [65, 66, 67] else []),
      path_join = (\<lambda>a b. a @ js ''/'' @ b),
      path_dirname = (\<lambda>p. rev (drop 1 (dropWhile (\<lambda>c. c \<noteq> 47) (rev p)))),
      Date_now = 7\<rparr>"

text \<open>
  What \<^verbatim>\<open>startServer\<close> returns for the example configuration on port 5000, the URL
  parsed, and the client connected over the primary transport.
\<close>

definition example_server :: PlaywrightServerInfo where
  "example_server =
     \<lparr>port = 5000, url = js ''http://127.0.0.1:5000/mcp'',
      userDataDir = js ''/tmp/pw/shared/profile'', outputDir = js ''/tmp/pw/shared/out''\<rparr>"

definition example_url :: parsed_url where
  "example_url = \<lparr>origin = js ''http://127.0.0.1:5000'', pathname = js ''/mcp'', search_hash = []\<rparr>"

text \<open>
  The world after a first \<^verbatim>\<open>ensureServer()\<close> on a new manager, and after the
  \<^verbatim>\<open>ensureClient\<close> that follows it in \<^verbatim>\<open>takeScreenshot\<close>.
\<close>

definition started_world :: world where
  "started_world = snd (ensureServer example_config example_env new_world)"

definition connected_world :: world where
  "connected_world = snd (ensureClient example_env example_server started_world)"

text \<open>
  No rejected promise is cached in \<^verbatim>\<open>startPromise\<close>: the \<^verbatim>\<open>catch\<close> handler of
  \<^verbatim>\<open>ensureServer\<close> clears the field before anyone can read the rejection. It holds of a
  new manager and every operation keeps it (lemmas \<open>start_not_rejected_*\<close>).
\<close>

definition start_not_rejected :: "world \<Rightarrow> bool" where
  "start_not_rejected w = (case startPromise w of Some (Inl x) \<Rightarrow> False | _ \<Rightarrow> True)"

definition example_client :: client where
  "example_client = Client (StreamableHTTPClientTransport example_url)"

text \<open>
  An outside world in which port 5000 is taken, and the server a start finds there.
\<close>

definition env_5000_busy :: env where
  "env_5000_busy = example_env\<lparr>listen := (\<lambda>h p. p \<noteq> 5000)\<rparr>"

definition restarted_server :: PlaywrightServerInfo where
  "restarted_server =
     \<lparr>port = 5001, url = js ''http://127.0.0.1:5001/mcp'',
      userDataDir = js ''/tmp/pw/shared/profile'', outputDir = js ''/tmp/pw/shared/out''\<rparr>"

text \<open>
  A restart: from the started world, \<^verbatim>\<open>stop()\<close>; then \<^verbatim>\<open>ensureServer()\<close> while the
  stopped child still holds port 5000; then the exit event of the stopped child (ended
  by SIGTERM: no exit code, signal code SIGTERM); then \<^verbatim>\<open>ensureServer()\<close> again.
\<close>

definition restart_w2 :: world where
  "restart_w2 = stop example_env started_world"

definition restart_w3 :: world where
  "restart_w3 = snd (ensureServer example_config env_5000_busy restart_w2)"

definition restart_w4 :: world where
  "restart_w4 = child_exit 0 None (Some (js ''SIGTERM'')) restart_w3"

definition restart_w5 :: world where
  "restart_w5 = snd (ensureServer example_config example_env restart_w4)"

text \<open>
  The connected world after \<^verbatim>\<open>stop()\<close>, an outside world with no free port, and one
  in which the spawned server never opens its port.
\<close>

definition stopped_world :: world where
  "stopped_world = stop example_env connected_world"

definition env_no_ports :: env where
  "env_no_ports = example_env\<lparr>listen := (\<lambda>h p. False)\<rparr>"

definition env_never_ready :: env where
  "env_never_ready = example_env\<lparr>canConnect := (\<lambda>h p t. replicate 120 False)\<rparr>"

text \<open>
  An outside world in which the primary transport refuses the connection and the
  fallback accepts it, and one in which every transport refuses.
\<close>

definition env_primary_down :: env where
  "env_primary_down =
     example_env\<lparr>connect := (\<lambda>t. case t of
        StreamableHTTPClientTransport u \<Rightarrow> Some (Thrown (js ''Error: ECONNREFUSED''))
      | SSEClientTransport u \<Rightarrow> None)\<rparr>"

definition env_refused :: env where
  "env_refused = example_env\<lparr>connect := (\<lambda>t. Some (Thrown (js ''Error: ECONNREFUSED'')))\<rparr>"

text \<open>
  The started world after an \<^verbatim>\<open>ensureClient\<close> in which both transports refused.
\<close>

definition refused_world :: world where
  "refused_world = snd (ensureClient env_refused example_server started_world)"

text \<open>
  A screenshot request whose tool name has two neighbouring characters outside the
  class.
\<close>

definition example_opts :: screenshot_opts where
  "example_opts = \<lparr>sessionId = js ''s1'', callId = None, tool = Some (js ''a!!b'')\<rparr>"

text \<open>
  A tool response that signals an error with the text \<open>t\<close>, and the outside world in
  which the tool answers with it.
\<close>

definition error_response :: "jsstring \<Rightarrow> tool_response" where
  "error_response t =
     \<lparr>isError = True,
      content = Some [\<lparr>btype = Some (js ''text''), btext = Some t, bdata = None,
                       bmimeType = None\<rparr>]\<rparr>"

definition env_tool_error :: "jsstring \<Rightarrow> env" where
  "env_tool_error t = example_env\<lparr>callTool := (\<lambda>f. Inr (error_response t))\<rparr>"

text \<open>
  An outside world in which the tool call throws, and one in which the directory of the
  session's screenshots cannot be made (every other directory can).
\<close>

definition env_tool_throws :: env where
  "env_tool_throws = example_env\<lparr>callTool := (\<lambda>f. Inl (Thrown (js ''Error: Connection closed'')))\<rparr>"

definition env_session_dir :: env where
  "env_session_dir =
     example_env\<lparr>mkdir := (\<lambda>p. if p = js ''/tmp/pw/shared/out/s1''
                                 then Some (Thrown (js ''Error: EACCES: permission denied, mkdir''))
                                 else None)\<rparr>"

text \<open>
  Content blocks and tool responses for the examples: a response with a text block and
  an image block, one with a text block that links a file, and one with two image
  blocks of which the first has empty data; and the outside worlds in which the tool
  answers with them (in \<open>env_link\<close> the linked file exists).
\<close>

definition image_block :: "jsstring \<Rightarrow> jsstring \<Rightarrow> block" where
  "image_block d m =
     \<lparr>btype = Some (js ''image''), btext = None, bdata = Some d, bmimeType = Some m\<rparr>"

definition text_block :: "jsstring \<Rightarrow> block" where
  "text_block t = \<lparr>btype = Some (js ''text''), btext = Some t, bdata = None, bmimeType = None\<rparr>"

definition image_response :: tool_response where
  "image_response =
     \<lparr>isError = False,
      content = Some [text_block (js ''See [shot](/tmp/out/a.png)''),
                      image_block (js ''QUJD'') (js ''image/png'')]\<rparr>"

definition link_response :: tool_response where
  "link_response =
     \<lparr>isError = False, content = Some [text_block (js ''See [shot](/tmp/out/a.png)'')]\<rparr>"

definition two_images_response :: tool_response where
  "two_images_response =
     \<lparr>isError = False,
      content = Some [image_block [] (js ''image/png''),
                      image_block (js ''QUJD'') (js ''image/png'')]\<rparr>"

definition env_answers :: "tool_response \<Rightarrow> env" where
  "env_answers res = example_env\<lparr>callTool := (\<lambda>f. Inr res)\<rparr>"

definition env_link :: env where
  "env_link = (env_answers link_response)\<lparr>access := (\<lambda>p. p = js ''/tmp/out/a.png'')\<rparr>"

section \<open>The port allocator returns the first free port\<close>

lemma findAvailablePort_from_end:
  "\<not> p \<le> endp \<Longrightarrow> findAvailablePort_from probe p endp = None"
  by (subst findAvailablePort_from.simps) simp

lemma findAvailablePort_from_throws:
  "p \<le> endp \<Longrightarrow> probe p = Inl err \<Longrightarrow> findAvailablePort_from probe p endp = Some (Inl err)"
  by (subst findAvailablePort_from.simps) simp

lemma findAvailablePort_from_free:
  "p \<le> endp \<Longrightarrow> probe p = Inr True \<Longrightarrow> findAvailablePort_from probe p endp = Some (Inr p)"
  by (subst findAvailablePort_from.simps) simp

lemma findAvailablePort_from_busy:
  "p \<le> endp \<Longrightarrow> probe p = Inr False \<Longrightarrow>
     findAvailablePort_from probe p endp = findAvailablePort_from probe (p + 1) endp"
  by (subst findAvailablePort_from.simps) simp

lemma scan_split:
  fixes p :: int
  shows "(\<forall>r. p \<le> r \<and> r < q \<longrightarrow> P r) \<longleftrightarrow> (p < q \<longrightarrow> P p) \<and> (\<forall>r. p + 1 \<le> r \<and> r < q \<longrightarrow> P r)"
proof -
  have "p \<le> r \<longleftrightarrow> r = p \<or> p + 1 \<le> r" for r by arith
  then show ?thesis by auto
qed

lemma scan_split_le:
  fixes p :: int
  shows "(\<forall>r. p \<le> r \<and> r \<le> q \<longrightarrow> P r) \<longleftrightarrow> (p \<le> q \<longrightarrow> P p) \<and> (\<forall>r. p + 1 \<le> r \<and> r \<le> q \<longrightarrow> P r)"
proof -
  have "p \<le> r \<longleftrightarrow> r = p \<or> p + 1 \<le> r" for r by arith
  then show ?thesis by auto
qed

lemma probe_cases:
  obtains (throws) err where "probe (p::int) = Inl err"
  | (free) "probe p = Inr True" | (busy) "probe p = Inr False"
  by (cases "probe p") auto

lemma findAvailablePort_from_Inr:
  "findAvailablePort_from probe p endp = Some (Inr q) \<longleftrightarrow>
     p \<le> q \<and> q \<le> endp \<and> probe q = Inr True \<and> (\<forall>r. p \<le> r \<and> r < q \<longrightarrow> probe r = Inr False)"
proof (induction probe p endp rule: findAvailablePort_from.induct)
  case (1 probe p endp)
  show ?case
  proof (cases "p \<le> endp")
    case False
    then show ?thesis by (auto simp: findAvailablePort_from_end)
  next
    case le: True
    show ?thesis
    proof (cases rule: probe_cases [of probe p])
      case (throws err)
      have "q \<noteq> p" if "probe q = Inr True" using that throws by auto
      moreover have "\<not> (\<forall>r. p \<le> r \<and> r < q \<longrightarrow> probe r = Inr False)" if "p < q"
        using that throws by (auto intro!: exI [of _ p])
      ultimately show ?thesis
        using le throws by (auto simp: findAvailablePort_from_throws order_le_less)
    next
      case free
      have "\<not> (\<forall>r. p \<le> r \<and> r < q \<longrightarrow> probe r = Inr False)" if "p < q"
        using that free by (auto intro!: exI [of _ p])
      then show ?thesis
        using le free by (auto simp: findAvailablePort_from_free order_le_less)
    next
      case busy
      have IH: "findAvailablePort_from probe (p + 1) endp = Some (Inr q) \<longleftrightarrow>
         p + 1 \<le> q \<and> q \<le> endp \<and> probe q = Inr True
         \<and> (\<forall>r. p + 1 \<le> r \<and> r < q \<longrightarrow> probe r = Inr False)"
        using "1.IH" [OF le busy] by simp
      have "p + 1 \<le> q" if "p \<le> q" "probe q = Inr True"
      proof -
        from that busy have "q \<noteq> p" by auto
        with that show ?thesis by simp
      qed
      then show ?thesis
        unfolding findAvailablePort_from_busy [of p endp probe, OF le busy] IH
        using busy by (subst (2) scan_split) auto
    qed
  qed
qed

lemma findAvailablePort_from_None:
  "findAvailablePort_from probe p endp = None \<longleftrightarrow>
     (\<forall>r. p \<le> r \<and> r \<le> endp \<longrightarrow> probe r = Inr False)"
proof (induction probe p endp rule: findAvailablePort_from.induct)
  case (1 probe p endp)
  show ?case
  proof (cases "p \<le> endp")
    case False
    then show ?thesis by (auto simp: findAvailablePort_from_end)
  next
    case le: True
    show ?thesis
    proof (cases rule: probe_cases [of probe p])
      case (throws err)
      with le show ?thesis
        by (auto simp: findAvailablePort_from_throws intro!: exI [of _ p])
    next
      case free
      with le show ?thesis
        by (auto simp: findAvailablePort_from_free intro!: exI [of _ p])
    next
      case busy
      have IH: "findAvailablePort_from probe (p + 1) endp = None \<longleftrightarrow>
         (\<forall>r. p + 1 \<le> r \<and> r \<le> endp \<longrightarrow> probe r = Inr False)"
        using "1.IH" [OF le busy] by simp
      show ?thesis
        unfolding findAvailablePort_from_busy [of p endp probe, OF le busy] IH
        using busy le by (subst (2) scan_split_le) auto
    qed
  qed
qed

lemma findAvailablePort_from_Inl:
  "findAvailablePort_from probe p endp = Some (Inl err) \<longleftrightarrow>
     (\<exists>b. p \<le> b \<and> b \<le> endp \<and> probe b = Inl err
        \<and> (\<forall>r. p \<le> r \<and> r < b \<longrightarrow> probe r = Inr False))"
proof (induction probe p endp rule: findAvailablePort_from.induct)
  case (1 probe p endp)
  show ?case
  proof (cases "p \<le> endp")
    case False
    then show ?thesis by (auto simp: findAvailablePort_from_end)
  next
    case le: True
    show ?thesis
    proof (cases rule: probe_cases [of probe p])
      case (throws e0)
      show ?thesis
      proof
        assume "findAvailablePort_from probe p endp = Some (Inl err)"
        with le throws have "err = e0" by (simp add: findAvailablePort_from_throws)
        with le throws show "\<exists>b. p \<le> b \<and> b \<le> endp \<and> probe b = Inl err
            \<and> (\<forall>r. p \<le> r \<and> r < b \<longrightarrow> probe r = Inr False)"
          by (intro exI [of _ p]) auto
      next
        assume "\<exists>b. p \<le> b \<and> b \<le> endp \<and> probe b = Inl err
            \<and> (\<forall>r. p \<le> r \<and> r < b \<longrightarrow> probe r = Inr False)"
        then obtain b where b: "p \<le> b" "probe b = Inl err"
          "\<forall>r. p \<le> r \<and> r < b \<longrightarrow> probe r = Inr False" by blast
        have "b = p"
        proof (rule ccontr)
          assume "b \<noteq> p"
          with b(1) have "p < b" by simp
          with b(3) have "probe p = Inr False" by simp
          with throws show False by simp
        qed
        with b(2) throws have "err = e0" by simp
        with le throws show "findAvailablePort_from probe p endp = Some (Inl err)"
          by (simp add: findAvailablePort_from_throws)
      qed
    next
      case free
      have "\<not> (\<exists>b. p \<le> b \<and> b \<le> endp \<and> probe b = Inl err
            \<and> (\<forall>r. p \<le> r \<and> r < b \<longrightarrow> probe r = Inr False))"
      proof
        assume "\<exists>b. p \<le> b \<and> b \<le> endp \<and> probe b = Inl err
            \<and> (\<forall>r. p \<le> r \<and> r < b \<longrightarrow> probe r = Inr False)"
        then obtain b where b: "p \<le> b" "probe b = Inl err"
          "\<forall>r. p \<le> r \<and> r < b \<longrightarrow> probe r = Inr False" by blast
        from b(2) free have "b \<noteq> p" by auto
        with b(1) have "p < b" by simp
        with b(3) have "probe p = Inr False" by simp
        with free show False by simp
      qed
      with le free show ?thesis
        by (simp add: findAvailablePort_from_free)
    next
      case busy
      have IH: "findAvailablePort_from probe (p + 1) endp = Some (Inl err) \<longleftrightarrow>
         (\<exists>b. p + 1 \<le> b \<and> b \<le> endp \<and> probe b = Inl err
            \<and> (\<forall>r. p + 1 \<le> r \<and> r < b \<longrightarrow> probe r = Inr False))"
        using "1.IH" [OF le busy] by simp
      have step: "p + 1 \<le> b" if "p \<le> b" "probe b = Inl err" for b
      proof -
        from that busy have "b \<noteq> p" by auto
        with that show ?thesis by simp
      qed
      have "(p + 1 \<le> b \<and> b \<le> endp \<and> probe b = Inl err
              \<and> (\<forall>r. p + 1 \<le> r \<and> r < b \<longrightarrow> probe r = Inr False)) \<longleftrightarrow>
            (p \<le> b \<and> b \<le> endp \<and> probe b = Inl err
              \<and> (\<forall>r. p \<le> r \<and> r < b \<longrightarrow> probe r = Inr False))" for b
        using busy step [of b] by (subst (2) scan_split) auto
      then show ?thesis
        unfolding findAvailablePort_from_busy [of p endp probe, OF le busy] IH by simp
    qed
  qed
qed

lemma tryPort_Inr_iff:
  "tryPort e h q = Inr ok \<longleftrightarrow> 0 \<le> q \<and> q \<le> 65535 \<and> ok = listen e h q"
  by (auto simp: tryPort_def)

lemma tryPort_Inl_iff:
  "tryPort e h q = Inl err \<longleftrightarrow> (q < 0 \<or> 65535 < q) \<and> err = BadPort q"
  by (auto simp: tryPort_def)

lemma tryPort_listen: "listen e' = listen e \<Longrightarrow> tryPort e' = tryPort e"
  by (simp add: tryPort_def fun_eq_iff)

lemma findAvailablePort_Inr_iff:
  "findAvailablePort e h start endp = Inr p \<longleftrightarrow>
     start \<le> p \<and> p \<le> endp \<and> tryPort e h p = Inr True
     \<and> (\<forall>q. start \<le> q \<and> q < p \<longrightarrow> tryPort e h q = Inr False)"
proof -
  have "findAvailablePort e h start endp = Inr p \<longleftrightarrow>
      findAvailablePort_from (tryPort e h) start endp = Some (Inr p)"
    by (simp add: findAvailablePort_def split: option.splits)
  then show ?thesis
    by (simp only: findAvailablePort_from_Inr)
qed

lemma findAvailablePort_port:
  assumes "findAvailablePort e h start endp = Inr p"
  shows "0 \<le> p \<and> p \<le> 65535"
proof -
  from assms have "tryPort e h p = Inr True"
    by (simp add: findAvailablePort_Inr_iff)
  then show ?thesis
    by (simp add: tryPort_Inr_iff)
qed

lemma findAvailablePort_Inl_iff:
  "findAvailablePort e h start endp = Inl err \<longleftrightarrow>
     (err = PortExhausted start endp
        \<and> (\<forall>q. start \<le> q \<and> q \<le> endp \<longrightarrow> tryPort e h q = Inr False))
     \<or> (\<exists>b. err = BadPort b \<and> start \<le> b \<and> b \<le> endp \<and> (b < 0 \<or> 65535 < b)
          \<and> (\<forall>q. start \<le> q \<and> q < b \<longrightarrow> tryPort e h q = Inr False))"
proof -
  have "findAvailablePort e h start endp = Inl err \<longleftrightarrow>
      (err = PortExhausted start endp \<and> findAvailablePort_from (tryPort e h) start endp = None)
      \<or> findAvailablePort_from (tryPort e h) start endp = Some (Inl err)"
    by (auto simp add: findAvailablePort_def split: option.splits)
  also have "\<dots> \<longleftrightarrow>
     (err = PortExhausted start endp
        \<and> (\<forall>q. start \<le> q \<and> q \<le> endp \<longrightarrow> tryPort e h q = Inr False))
     \<or> (\<exists>b. start \<le> b \<and> b \<le> endp \<and> tryPort e h b = Inl err
          \<and> (\<forall>q. start \<le> q \<and> q < b \<longrightarrow> tryPort e h q = Inr False))"
    by (simp only: findAvailablePort_from_None findAvailablePort_from_Inl)
  also have "\<dots> \<longleftrightarrow>
     (err = PortExhausted start endp
        \<and> (\<forall>q. start \<le> q \<and> q \<le> endp \<longrightarrow> tryPort e h q = Inr False))
     \<or> (\<exists>b. err = BadPort b \<and> start \<le> b \<and> b \<le> endp \<and> (b < 0 \<or> 65535 < b)
          \<and> (\<forall>q. start \<le> q \<and> q < b \<longrightarrow> tryPort e h q = Inr False))"
    unfolding tryPort_Inl_iff by blast
  finally show ?thesis .
qed

lemma findAvailablePort_ports_Inl_iff:
  assumes "0 \<le> start" and "endp \<le> 65535"
  shows "findAvailablePort e h start endp = Inl err \<longleftrightarrow>
     err = PortExhausted start endp \<and> (\<forall>q. start \<le> q \<and> q \<le> endp \<longrightarrow> \<not> listen e h q)"
proof -
  have port: "tryPort e h q = Inr False \<longleftrightarrow> \<not> listen e h q" if "start \<le> q" "q \<le> endp" for q
    using that assms by (auto simp: tryPort_def)
  have none: "\<not> (\<exists>b. err = BadPort b \<and> start \<le> b \<and> b \<le> endp \<and> (b < 0 \<or> 65535 < b)
          \<and> (\<forall>q. start \<le> q \<and> q < b \<longrightarrow> tryPort e h q = Inr False))"
    using assms by auto
  show ?thesis
    unfolding findAvailablePort_Inl_iff using none port by auto
qed

lemma findAvailablePort_ports_Inr_iff:
  assumes "0 \<le> start" and "endp \<le> 65535"
  shows "findAvailablePort e h start endp = Inr p \<longleftrightarrow>
     start \<le> p \<and> p \<le> endp \<and> listen e h p \<and> (\<forall>q. start \<le> q \<and> q < p \<longrightarrow> \<not> listen e h q)"
proof -
  have port: "tryPort e h q = Inr b \<longleftrightarrow> b = listen e h q" if "start \<le> q" "q \<le> endp" for q b
    using that assms by (auto simp: tryPort_def)
  show ?thesis
    unfolding findAvailablePort_Inr_iff
  proof (cases "start \<le> p \<and> p \<le> endp")
    case False
    then show "start \<le> p \<and> p \<le> endp \<and> tryPort e h p = Inr True
        \<and> (\<forall>q. start \<le> q \<and> q < p \<longrightarrow> tryPort e h q = Inr False) \<longleftrightarrow>
      start \<le> p \<and> p \<le> endp \<and> listen e h p \<and> (\<forall>q. start \<le> q \<and> q < p \<longrightarrow> \<not> listen e h q)"
      by blast
  next
    case True
    then have "tryPort e h q = Inr False \<longleftrightarrow> \<not> listen e h q" if "start \<le> q" "q < p" for q
      using that port [of q False] by simp
    moreover have "tryPort e h p = Inr True \<longleftrightarrow> listen e h p"
      using True port [of p True] by auto
    ultimately show "start \<le> p \<and> p \<le> endp \<and> tryPort e h p = Inr True
        \<and> (\<forall>q. start \<le> q \<and> q < p \<longrightarrow> tryPort e h q = Inr False) \<longleftrightarrow>
      start \<le> p \<and> p \<le> endp \<and> listen e h p \<and> (\<forall>q. start \<le> q \<and> q < p \<longrightarrow> \<not> listen e h q)"
      by auto
  qed
qed

lemma findAvailablePort_bad_start:
  assumes "start \<le> endp" and "start < 0 \<or> 65535 < start"
  shows "findAvailablePort e h start endp = Inl (BadPort start)"
proof -
  have "\<exists>b. BadPort start = BadPort b \<and> start \<le> b \<and> b \<le> endp \<and> (b < 0 \<or> 65535 < b)
          \<and> (\<forall>q. start \<le> q \<and> q < b \<longrightarrow> tryPort e h q = Inr False)"
    using assms by (intro exI [of _ start]) auto
  then show ?thesis
    unfolding findAvailablePort_Inl_iff by blast
qed

lemma findAvailablePort_bad_end:
  assumes "0 \<le> start" and "start \<le> 65535" and "65535 < endp"
    and "\<forall>q. start \<le> q \<and> q \<le> 65535 \<longrightarrow> \<not> listen e h q"
  shows "findAvailablePort e h start endp = Inl (BadPort 65536)"
proof -
  have "tryPort e h q = Inr False" if "start \<le> q" "q < 65536" for q
    using that assms by (auto simp: tryPort_def)
  then have "\<exists>b. BadPort 65536 = BadPort b \<and> start \<le> b \<and> b \<le> endp \<and> (b < 0 \<or> 65535 < b)
          \<and> (\<forall>q. start \<le> q \<and> q < b \<longrightarrow> tryPort e h q = Inr False)"
    using assms by (intro exI [of _ 65536]) auto
  then show ?thesis
    unfolding findAvailablePort_Inl_iff by blast
qed

lemma findAvailablePort_example_free:
  assumes "tryPort e h 5000 = Inr False" and "tryPort e h 5001 = Inr False"
    and "tryPort e h 5002 = Inr True"
  shows "findAvailablePort e h 5000 5002 = Inr 5002"
proof -
  have "tryPort e h q = Inr False" if "5000 \<le> q" "q < 5002" for q
  proof -
    from that have "q = 5000 \<or> q = 5001" by arith
    with assms show ?thesis by auto
  qed
  then have "(5000::int) \<le> 5002 \<and> (5002::int) \<le> 5002 \<and> tryPort e h 5002 = Inr True
      \<and> (\<forall>q. 5000 \<le> q \<and> q < 5002 \<longrightarrow> tryPort e h q = Inr False)"
    using assms by simp
  then show ?thesis
    by (rule findAvailablePort_Inr_iff [THEN iffD2])
qed

lemma findAvailablePort_example_busy:
  assumes "tryPort e h 5000 = Inr False" and "tryPort e h 5001 = Inr False"
    and "tryPort e h 5002 = Inr False"
  shows "findAvailablePort e h 5000 5002 = Inl (PortExhausted 5000 5002)"
proof -
  have "tryPort e h q = Inr False" if "5000 \<le> q" "q \<le> 5002" for q
  proof -
    from that have "q = 5000 \<or> q = 5001 \<or> q = 5002" by arith
    with assms show ?thesis by auto
  qed
  then have "PortExhausted 5000 5002 = PortExhausted 5000 5002
      \<and> (\<forall>q. 5000 \<le> q \<and> q \<le> 5002 \<longrightarrow> tryPort e h q = Inr False)"
    by simp
  then show ?thesis
    unfolding findAvailablePort_Inl_iff by (rule disjI1)
qed

text \<open>
  C4, with the numbers that are not ports. \<^verbatim>\<open>findAvailablePort(host, start, end)\<close>
  returns a port exactly when that port lies in the range from \<open>start\<close> to \<open>end\<close>, both
  included, its probe answers true and the probe of every smaller number of the range
  answers false: the scan is ascending and stops at the first free port. A probe
  answers exactly for the numbers from 0 to 65535, and then with what the listener did.
  The call fails in two ways. It fails with the port-exhausted error exactly when the
  probe of every number of the range answers false. It fails with the range error of
  the listener exactly when the scan reaches a number outside 0 to 65535 before any
  probe answered true; that is the case when \<open>start\<close> is no port and the range is not
  empty, and when \<open>end\<close> is above 65535 and no port from \<open>start\<close> to 65535 is free. So
  for a range of ports (\<open>0 \<le> start\<close> and \<open>end \<le> 65535\<close>) the call returns the first free
  port of the range, and fails exactly when no port of the range is free, with the
  port-exhausted error and no other. For the range 5000 to 5002 with 5000 and 5001
  occupied it returns 5002, and with all three occupied it fails with the
  port-exhausted error.
\<close>

theorem findAvailablePort_first_free:
  "(findAvailablePort e h start endp = Inr p \<longleftrightarrow>
      start \<le> p \<and> p \<le> endp \<and> tryPort e h p = Inr True
      \<and> (\<forall>q. start \<le> q \<and> q < p \<longrightarrow> tryPort e h q = Inr False))
   \<and> (tryPort e h n = Inr ok \<longleftrightarrow> 0 \<le> n \<and> n \<le> 65535 \<and> ok = listen e h n)
   \<and> (findAvailablePort e h start endp = Inl err \<longleftrightarrow>
        (err = PortExhausted start endp
           \<and> (\<forall>q. start \<le> q \<and> q \<le> endp \<longrightarrow> tryPort e h q = Inr False))
        \<or> (\<exists>b. err = BadPort b \<and> start \<le> b \<and> b \<le> endp \<and> (b < 0 \<or> 65535 < b)
             \<and> (\<forall>q. start \<le> q \<and> q < b \<longrightarrow> tryPort e h q = Inr False)))
   \<and> (start \<le> endp \<and> (start < 0 \<or> 65535 < start)
        \<longrightarrow> findAvailablePort e h start endp = Inl (BadPort start))
   \<and> (0 \<le> start \<and> start \<le> 65535 \<and> 65535 < endp
         \<and> (\<forall>q. start \<le> q \<and> q \<le> 65535 \<longrightarrow> \<not> listen e h q)
        \<longrightarrow> findAvailablePort e h start endp = Inl (BadPort 65536))
   \<and> (0 \<le> start \<and> endp \<le> 65535 \<longrightarrow>
        (findAvailablePort e h start endp = Inr p \<longleftrightarrow>
           start \<le> p \<and> p \<le> endp \<and> listen e h p
           \<and> (\<forall>q. start \<le> q \<and> q < p \<longrightarrow> \<not> listen e h q))
        \<and> (findAvailablePort e h start endp = Inl err \<longleftrightarrow>
           err = PortExhausted start endp
           \<and> (\<forall>q. start \<le> q \<and> q \<le> endp \<longrightarrow> \<not> listen e h q)))
   \<and> (tryPort e h 5000 = Inr False \<and> tryPort e h 5001 = Inr False \<and> tryPort e h 5002 = Inr True
        \<longrightarrow> findAvailablePort e h 5000 5002 = Inr 5002)
   \<and> (tryPort e h 5000 = Inr False \<and> tryPort e h 5001 = Inr False \<and> tryPort e h 5002 = Inr False
        \<longrightarrow> findAvailablePort e h 5000 5002 = Inl (PortExhausted 5000 5002))"
proof (intro conjI impI)
  show "findAvailablePort e h start endp = Inr p \<longleftrightarrow>
      start \<le> p \<and> p \<le> endp \<and> tryPort e h p = Inr True
      \<and> (\<forall>q. start \<le> q \<and> q < p \<longrightarrow> tryPort e h q = Inr False)"
    by (rule findAvailablePort_Inr_iff)
  show "tryPort e h n = Inr ok \<longleftrightarrow> 0 \<le> n \<and> n \<le> 65535 \<and> ok = listen e h n"
    by (rule tryPort_Inr_iff)
  show "findAvailablePort e h start endp = Inl err \<longleftrightarrow>
        (err = PortExhausted start endp
           \<and> (\<forall>q. start \<le> q \<and> q \<le> endp \<longrightarrow> tryPort e h q = Inr False))
        \<or> (\<exists>b. err = BadPort b \<and> start \<le> b \<and> b \<le> endp \<and> (b < 0 \<or> 65535 < b)
             \<and> (\<forall>q. start \<le> q \<and> q < b \<longrightarrow> tryPort e h q = Inr False))"
    by (rule findAvailablePort_Inl_iff)
next
  assume "start \<le> endp \<and> (start < 0 \<or> 65535 < start)"
  then show "findAvailablePort e h start endp = Inl (BadPort start)"
    by (intro findAvailablePort_bad_start) blast+
next
  assume "0 \<le> start \<and> start \<le> 65535 \<and> 65535 < endp
         \<and> (\<forall>q. start \<le> q \<and> q \<le> 65535 \<longrightarrow> \<not> listen e h q)"
  then show "findAvailablePort e h start endp = Inl (BadPort 65536)"
    by (intro findAvailablePort_bad_end) blast+
next
  assume "0 \<le> start \<and> endp \<le> 65535"
  then show "findAvailablePort e h start endp = Inr p \<longleftrightarrow>
           start \<le> p \<and> p \<le> endp \<and> listen e h p
           \<and> (\<forall>q. start \<le> q \<and> q < p \<longrightarrow> \<not> listen e h q)"
    by (intro findAvailablePort_ports_Inr_iff) blast+
next
  assume "0 \<le> start \<and> endp \<le> 65535"
  then show "findAvailablePort e h start endp = Inl err \<longleftrightarrow>
           err = PortExhausted start endp
           \<and> (\<forall>q. start \<le> q \<and> q \<le> endp \<longrightarrow> \<not> listen e h q)"
    by (intro findAvailablePort_ports_Inl_iff) blast+
next
  assume "tryPort e h 5000 = Inr False \<and> tryPort e h 5001 = Inr False
      \<and> tryPort e h 5002 = Inr True"
  then show "findAvailablePort e h 5000 5002 = Inr 5002"
    by (intro findAvailablePort_example_free) blast+
next
  assume "tryPort e h 5000 = Inr False \<and> tryPort e h 5001 = Inr False
      \<and> tryPort e h 5002 = Inr False"
  then show "findAvailablePort e h 5000 5002 = Inl (PortExhausted 5000 5002)"
    by (intro findAvailablePort_example_busy) blast+
qed

theorem findAvailablePort_first_free_witness:
  "findAvailablePort (example_env\<lparr>listen := (\<lambda>h p. p = 5002)\<rparr>) (js ''127.0.0.1'') 5000 5002
     = Inr 5002
   \<and> findAvailablePort (example_env\<lparr>listen := (\<lambda>h p. False)\<rparr>) (js ''127.0.0.1'') 5000 5002
     = Inl (PortExhausted 5000 5002)
   \<and> findAvailablePort (example_env\<lparr>listen := (\<lambda>h p. False)\<rparr>) (js ''127.0.0.1'') (- 1) 5002
     = Inl (BadPort (- 1))
   \<and> findAvailablePort (example_env\<lparr>listen := (\<lambda>h p. False)\<rparr>) (js ''127.0.0.1'') 65000 70000
     = Inl (BadPort 65536)"
proof -
  let ?free = "example_env\<lparr>listen := (\<lambda>h p. p = 5002)\<rparr>"
  let ?busy = "example_env\<lparr>listen := (\<lambda>h p. False)\<rparr>"
  let ?h = "js ''127.0.0.1''"
  have "findAvailablePort ?free ?h 5000 5002 = Inr 5002"
    using findAvailablePort_first_free
          [where e = ?free and h = ?h and start = 5000 and endp = 5002 and p = 5002]
    by simp
  moreover have "findAvailablePort ?busy ?h 5000 5002 = Inl (PortExhausted 5000 5002)"
    using findAvailablePort_first_free
          [where e = ?busy and h = ?h and start = 5000 and endp = 5002
             and err = "PortExhausted 5000 5002"]
    by simp
  moreover have "findAvailablePort ?busy ?h (- 1) 5002 = Inl (BadPort (- 1))"
    using findAvailablePort_first_free [where e = ?busy and h = ?h and start = "- 1" and endp = 5002]
    by simp
  moreover have "findAvailablePort ?busy ?h 65000 70000 = Inl (BadPort 65536)"
    using findAvailablePort_first_free [where e = ?busy and h = ?h and start = 65000 and endp = 70000]
    by simp
  ultimately show ?thesis by simp
qed

text \<open>
  C4 as stated fails on a range that leaves the ports. In the range from 65535 to 65536
  no port is free when 65535 is occupied: the probe of 65535 answers false and 65536
  is not a port. The call does not fail with the port-exhausted error: the probe of
  65536 is rejected with the range error of the listener, and the call with it.
\<close>

theorem findAvailablePort_range_error:
  "tryPort (example_env\<lparr>listen := (\<lambda>h p. False)\<rparr>) (js ''127.0.0.1'') 65535 = Inr False
   \<and> tryPort (example_env\<lparr>listen := (\<lambda>h p. False)\<rparr>) (js ''127.0.0.1'') 65536
       = Inl (BadPort 65536)
   \<and> findAvailablePort (example_env\<lparr>listen := (\<lambda>h p. False)\<rparr>) (js ''127.0.0.1'') 65535 65536
       = Inl (BadPort 65536)
   \<and> findAvailablePort (example_env\<lparr>listen := (\<lambda>h p. False)\<rparr>) (js ''127.0.0.1'') 65535 65536
       \<noteq> Inl (PortExhausted 65535 65536)"
proof -
  let ?busy = "example_env\<lparr>listen := (\<lambda>h p. False)\<rparr>"
  let ?h = "js ''127.0.0.1''"
  have a: "tryPort ?busy ?h 65535 = Inr False" and b: "tryPort ?busy ?h 65536 = Inl (BadPort 65536)"
    by (simp_all add: tryPort_def)
  have "findAvailablePort ?busy ?h 65535 65536 = Inl (BadPort 65536)"
    by (rule findAvailablePort_bad_end) simp_all
  with a b show ?thesis by simp
qed

section \<open>Caches, starts and stops\<close>

text \<open>
  The three ways through \<^verbatim>\<open>ensureServer\<close>, and the cache of \<^verbatim>\<open>ensureClient\<close>.
\<close>

lemma ensureServer_cached:
  assumes "startPromise w = Some (Inr st)" and "alive (children w (child st))"
  shows "ensureServer cfg e w = (Inr (info st), w)"
  using assms by (simp add: ensureServer_def)

lemma ensureServer_stale:
  assumes "startPromise w = Some (Inr st)" and "\<not> alive (children w (child st))"
  shows "ensureServer cfg e w = start_attempt cfg e (w\<lparr>startPromise := None, clientPromise := None\<rparr>)"
  using assms by (simp add: ensureServer_def)

lemma ensureServer_idle:
  assumes "startPromise w = None"
  shows "ensureServer cfg e w = start_attempt cfg e w"
  using assms by (simp add: ensureServer_def)

lemma ensureClient_cached:
  assumes "clientPromise w = Some r"
  shows "ensureClient e server w = (r, w)"
  using assms by (simp add: ensureClient_def)

text \<open>
  A start that succeeds: what it returns and what it leaves behind.
\<close>

lemma startServer_ok:
  assumes "mkdir e (substituteSessionId (user_data_dir cfg) (js ''shared'')) = None"
    and "mkdir e (substituteSessionId (output_dir cfg) (js ''shared'')) = None"
    and "findAvailablePort e (host cfg) (port_start cfg) (port_end cfg) = Inr p"
    and "waitForPortOpen e (host cfg) p (timeout_ms cfg) = None"
  shows "fst (startServer cfg e w) =
           Inr \<lparr>info = \<lparr>port = p,
                         url = js ''http://'' @ host cfg @ js '':'' @ show_int p @ js ''/mcp'',
                         userDataDir = substituteSessionId (user_data_dir cfg) (js ''shared''),
                         outputDir = substituteSessionId (output_dir cfg) (js ''shared'')\<rparr>,
                child = spawned w\<rparr>"
    and "startPromise (snd (startServer cfg e w)) = startPromise w"
    and "clientPromise (snd (startServer cfg e w)) = clientPromise w"
    and "spawned (snd (startServer cfg e w)) = Suc (spawned w)"
    and "killed (children (snd (startServer cfg e w)) (spawned w)) = False"
    and "exitCode (children (snd (startServer cfg e w)) (spawned w)) = None"
    and "signalCode (children (snd (startServer cfg e w)) (spawned w)) = None"
    and "c \<noteq> spawned w \<Longrightarrow> children (snd (startServer cfg e w)) c = children w c"
    and "timers (snd (startServer cfg e w)) = timers w"
    and "connects (snd (startServer cfg e w)) = connects w"
    and "closes (snd (startServer cfg e w)) = closes w"
    and "tool_calls (snd (startServer cfg e w)) = tool_calls w"
    and "writes (snd (startServer cfg e w)) = writes w"
  using assms by (simp_all add: startServer_def Let_def spawn_def logger_def)

text \<open>
  A start whose server never opens its port.
\<close>

lemma startServer_timeout:
  assumes "mkdir e (substituteSessionId (user_data_dir cfg) (js ''shared'')) = None"
    and "mkdir e (substituteSessionId (output_dir cfg) (js ''shared'')) = None"
    and "findAvailablePort e (host cfg) (port_start cfg) (port_end cfg) = Inr p"
    and "waitForPortOpen e (host cfg) p (timeout_ms cfg) = Some err"
  shows "fst (startServer cfg e w) = Inl err"
    and "startPromise (snd (startServer cfg e w)) = startPromise w"
    and "clientPromise (snd (startServer cfg e w)) = clientPromise w"
    and "spawned (snd (startServer cfg e w)) = Suc (spawned w)"
    and "killed (children (snd (startServer cfg e w)) (spawned w)) = True"
    and "exitCode (children (snd (startServer cfg e w)) (spawned w)) = None"
    and "signalCode (children (snd (startServer cfg e w)) (spawned w)) = None"
    and "c \<noteq> spawned w \<Longrightarrow> children (snd (startServer cfg e w)) c = children w c"
    and "timers (snd (startServer cfg e w)) = timers w @ [spawned w]"
  using assms by (simp_all add: startServer_def Let_def spawn_def logger_def kill_def exited_def)

text \<open>
  A start that fails before anything is spawned leaves the world as it was.
\<close>

lemma startServer_no_port:
  assumes "mkdir e (substituteSessionId (user_data_dir cfg) (js ''shared'')) = None"
    and "mkdir e (substituteSessionId (output_dir cfg) (js ''shared'')) = None"
    and "findAvailablePort e (host cfg) (port_start cfg) (port_end cfg) = Inl err"
  shows "startServer cfg e w = (Inl err, w)"
  using assms by (simp add: startServer_def Let_def)

text \<open>
  \<^verbatim>\<open>startServer\<close> itself never touches the two cached promises.
\<close>

lemma startServer_promises:
  "startPromise (snd (startServer cfg e w)) = startPromise w"
  "clientPromise (snd (startServer cfg e w)) = clientPromise w"
  by (simp_all add: startServer_def Let_def spawn_def logger_def kill_def
      split: option.splits sum.splits prod.splits)

lemma start_attempt_unfold:
  "start_attempt cfg e w =
     (case fst (startServer cfg e w) of
        Inl err \<Rightarrow> (Inl err, (snd (startServer cfg e w))\<lparr>startPromise := None, clientPromise := None\<rparr>)
      | Inr st \<Rightarrow> (Inr (info st), (snd (startServer cfg e w))\<lparr>startPromise := Some (Inr st)\<rparr>))"
  by (simp add: start_attempt_def split: prod.splits sum.splits)

lemma start_attempt_ok:
  assumes "mkdir e (substituteSessionId (user_data_dir cfg) (js ''shared'')) = None"
    and "mkdir e (substituteSessionId (output_dir cfg) (js ''shared'')) = None"
    and "findAvailablePort e (host cfg) (port_start cfg) (port_end cfg) = Inr p"
    and "waitForPortOpen e (host cfg) p (timeout_ms cfg) = None"
  shows "fst (start_attempt cfg e w) =
           Inr \<lparr>port = p,
                 url = js ''http://'' @ host cfg @ js '':'' @ show_int p @ js ''/mcp'',
                 userDataDir = substituteSessionId (user_data_dir cfg) (js ''shared''),
                 outputDir = substituteSessionId (output_dir cfg) (js ''shared'')\<rparr>"
    and "startPromise (snd (start_attempt cfg e w)) =
           Some (Inr \<lparr>info = \<lparr>port = p,
                         url = js ''http://'' @ host cfg @ js '':'' @ show_int p @ js ''/mcp'',
                         userDataDir = substituteSessionId (user_data_dir cfg) (js ''shared''),
                         outputDir = substituteSessionId (output_dir cfg) (js ''shared'')\<rparr>,
                child = spawned w\<rparr>)"
    and "clientPromise (snd (start_attempt cfg e w)) = clientPromise w"
    and "spawned (snd (start_attempt cfg e w)) = Suc (spawned w)"
    and "killed (children (snd (start_attempt cfg e w)) (spawned w)) = False"
    and "exitCode (children (snd (start_attempt cfg e w)) (spawned w)) = None"
    and "signalCode (children (snd (start_attempt cfg e w)) (spawned w)) = None"
    and "c \<noteq> spawned w \<Longrightarrow> children (snd (start_attempt cfg e w)) c = children w c"
    and "timers (snd (start_attempt cfg e w)) = timers w"
    and "connects (snd (start_attempt cfg e w)) = connects w"
    and "closes (snd (start_attempt cfg e w)) = closes w"
    and "tool_calls (snd (start_attempt cfg e w)) = tool_calls w"
    and "writes (snd (start_attempt cfg e w)) = writes w"
  using startServer_ok [OF assms, where w = w]
  by (simp_all add: start_attempt_unfold)



lemma example_env_simps:
  "mkdir example_env = (\<lambda>p. None)"
  "listen example_env = (\<lambda>h p. True)"
  "access example_env = (\<lambda>p. False)"
  "canConnect example_env = (\<lambda>h p t. [False, True])"
  "new_URL example_env = (\<lambda>s. Some example_url)"
  "connect example_env = (\<lambda>t. None)"
  "close example_env = (\<lambda>c. None)"
  "callTool example_env = (\<lambda>f. Inr \<lparr>isError = False, content = Some []\<rparr>)"
  "writeFile example_env = (\<lambda>p b. None)"
  "Buffer_from_base64 example_env = (\<lambda>d. if d = js ''QUJD'' then [65, 66, 67] else [])"
  "path_join example_env = (\<lambda>a b. a @ js ''/'' @ b)"
  "Date_now example_env = 7"
  by (simp_all add: example_env_def example_url_def)

lemma example_env_ready: "waitForPortOpen example_env h p t = None"
  by (simp add: waitForPortOpen_def example_env_simps)

lemma example_config_simps:
  "host example_config = js ''127.0.0.1''"
  "port_start example_config = 5000"
  "port_end example_config = 5002"
  "user_data_dir example_config = js ''/tmp/pw/{sessionId}/profile''"
  "output_dir example_config = js ''/tmp/pw/{sessionId}/out''"
  "timeout_ms example_config = 30000"
  by (simp_all add: example_config_def)

lemma show_int_5000: "show_int 5000 = js ''5000''"
  by (simp add: show_int_def show_nat.simps js_def)

lemma example_dirs:
  "substituteSessionId (js ''/tmp/pw/{sessionId}/profile'') (js ''shared'') = js ''/tmp/pw/shared/profile''"
  "substituteSessionId (js ''/tmp/pw/{sessionId}/out'') (js ''shared'') = js ''/tmp/pw/shared/out''"
  by code_simp+

lemma example_server_eq:
  "\<lparr>port = 5000,
    url = js ''http://'' @ host example_config @ js '':'' @ show_int 5000 @ js ''/mcp'',
    userDataDir = substituteSessionId (user_data_dir example_config) (js ''shared''),
    outputDir = substituteSessionId (output_dir example_config) (js ''shared'')\<rparr> = example_server"
  by (simp add: example_server_def example_config_simps show_int_5000 example_dirs) (simp add: js_def)

lemma port_all_free:
  "findAvailablePort example_env (host example_config) (port_start example_config)
     (port_end example_config) = Inr 5000"
  by (rule findAvailablePort_ports_Inr_iff [THEN iffD2])
     (simp_all add: example_env_simps example_config_simps)

lemmas example_start =
  start_attempt_ok [of example_env example_config 5000, OF _ _ port_all_free,
    unfolded example_server_eq, simplified example_env_simps example_env_ready, simplified]

lemma started_world_facts:
  "fst (ensureServer example_config example_env new_world) = Inr example_server"
  "startPromise started_world = Some (Inr \<lparr>info = example_server, child = 0\<rparr>)"
  "clientPromise started_world = None"
  "spawned started_world = 1"
  "killed (children started_world 0) = False"
  "exitCode (children started_world 0) = None"
  "signalCode (children started_world 0) = None"
  "connects started_world = []"
  "tool_calls started_world = []"
  "writes started_world = []"
  "timers started_world = []"
  using example_start [where w = new_world]
  by (simp_all add: started_world_def ensureServer_idle new_world_def)


lemma startServer_Inl:
  assumes "startServer cfg e w = (Inl err, w')"
  shows "startPromise w' = startPromise w \<and> clientPromise w' = clientPromise w"
  using startServer_promises [of cfg e w] assms by simp

lemma start_attempt_Inl:
  assumes "start_attempt cfg e w = (Inl err, w')"
  shows "startPromise w' = None \<and> clientPromise w' = None"
  using assms by (auto simp: start_attempt_def split: prod.splits sum.splits)


text \<open>
  C5. When \<^verbatim>\<open>ensureServer\<close> fails, in any state in which no rejection is cached (every
  state a manager can reach), it leaves \<^verbatim>\<open>startPromise\<close> and \<^verbatim>\<open>clientPromise\<close> both
  cleared: the manager is idle. The next \<^verbatim>\<open>ensureServer\<close> is then a start attempt of its
  own, whatever the outside answers now (\<open>e2\<close>): it runs \<^verbatim>\<open>startServer\<close> again, and
  when that start succeeds the call returns the new server's info and caches the new
  start. The failure is not replayed.
\<close>

theorem ensureServer_failure_clears:
  assumes "start_not_rejected w"
    and "ensureServer cfg e w = (Inl err, w')"
  shows "startPromise w' = None \<and> clientPromise w' = None
     \<and> ensureServer cfg e2 w' = start_attempt cfg e2 w'
     \<and> (\<forall>st w''. startServer cfg e2 w' = (Inr st, w'') \<longrightarrow>
           ensureServer cfg e2 w' = (Inr (info st), w''\<lparr>startPromise := Some (Inr st)\<rparr>))"
proof -
  have cleared: "startPromise w' = None \<and> clientPromise w' = None"
  proof (cases "startPromise w")
    case None
    with assms(2) have "start_attempt cfg e w = (Inl err, w')"
      by (simp add: ensureServer_def)
    then show ?thesis by (rule start_attempt_Inl)
  next
    case (Some r)
    with assms(1) obtain st where st: "startPromise w = Some (Inr st)"
      by (cases r) (auto simp: start_not_rejected_def)
    with assms(2) have "start_attempt cfg e (w\<lparr>startPromise := None, clientPromise := None\<rparr>) = (Inl err, w')"
      by (auto simp: ensureServer_def split: if_splits)
    then show ?thesis by (rule start_attempt_Inl)
  qed
  then have fresh: "ensureServer cfg e2 w' = start_attempt cfg e2 w'"
    by (simp add: ensureServer_def)
  then show ?thesis
    using cleared by (simp add: start_attempt_def)
qed

lemma start_not_rejected_new_world: "start_not_rejected new_world"
  by (simp add: start_not_rejected_def new_world_def)

lemma start_not_rejected_start_attempt:
  "start_not_rejected (snd (start_attempt cfg e w))"
  by (simp add: start_attempt_unfold start_not_rejected_def split: sum.splits)

lemma start_not_rejected_ensureServer:
  assumes "start_not_rejected w"
  shows "start_not_rejected (snd (ensureServer cfg e w))"
  using assms
  by (auto simp: ensureServer_def start_not_rejected_start_attempt
      split: option.splits sum.splits)

lemma start_not_rejected_stop:
  assumes "start_not_rejected w"
  shows "start_not_rejected (stop e w)"
  using assms
  by (auto simp: stop_def start_not_rejected_def kill_def Let_def
      split: option.splits sum.splits)

lemma start_not_rejected_child_exit: "start_not_rejected (child_exit c code signal w)"
  by (simp add: child_exit_def start_not_rejected_def logger_def Let_def)

lemma start_not_rejected_escalate:
  assumes "start_not_rejected w"
  shows "start_not_rejected (escalate c w)"
  using assms by (simp add: escalate_def start_not_rejected_def kill_def Let_def)

lemma createClient_promises:
  "startPromise (snd (createClient e server w)) = startPromise w"
  "clientPromise (snd (createClient e server w)) = clientPromise w"
  by (simp_all add: createClient_def Let_def logger_def split: option.splits)

lemma start_not_rejected_ensureClient:
  assumes "start_not_rejected w"
  shows "start_not_rejected (snd (ensureClient e server w))"
  using assms createClient_promises(1) [of e server w]
  by (auto simp: ensureClient_def start_not_rejected_def split: option.splits prod.splits)

lemma createClient_primary_ok:
  assumes "new_URL e (url server) = Some u"
    and "connect e (StreamableHTTPClientTransport u) = None"
  shows "createClient e server w =
           (Inr (Client (StreamableHTTPClientTransport u)),
            w\<lparr>connects := connects w @ [StreamableHTTPClientTransport u]\<rparr>)"
  using assms by (simp add: createClient_def Let_def)

lemma connected_world_facts:
  "fst (ensureClient example_env example_server started_world) = Inr example_client"
  "clientPromise connected_world = Some (Inr example_client)"
  "startPromise connected_world = Some (Inr \<lparr>info = example_server, child = 0\<rparr>)"
  "spawned connected_world = 1"
  "children connected_world = children started_world"
  "connects connected_world = [StreamableHTTPClientTransport example_url]"
  "tool_calls connected_world = []"
  "writes connected_world = []"
  "closes connected_world = closes started_world"
  "timers connected_world = []"
  by (simp_all add: connected_world_def ensureClient_def started_world_facts example_client_def
      createClient_primary_ok [where u = example_url] example_env_simps)

lemma stop_running:
  assumes "startPromise w = Some (Inr st)"
    and "\<not> killed (children w (child st))"
    and "\<not> exited (children w (child st))"
  shows "killed (children (stop e w) (child st))"
    and "exitCode (children (stop e w) (child st)) = exitCode (children w (child st))"
    and "signalCode (children (stop e w) (child st)) = signalCode (children w (child st))"
    and "c \<noteq> child st \<Longrightarrow> children (stop e w) c = children w c"
    and "startPromise (stop e w) = Some (Inr st)"
    and "clientPromise (stop e w) = clientPromise w"
    and "spawned (stop e w) = spawned w"
    and "timers (stop e w) = timers w @ [child st]"
    and "connects (stop e w) = connects w"
  using assms
  by (auto simp: stop_def kill_def Let_def split: option.splits sum.splits)

lemma child_exit_facts:
  "startPromise (child_exit c code signal w) = None"
  "clientPromise (child_exit c code signal w) = None"
  "spawned (child_exit c code signal w) = spawned w"
  "exitCode (children (child_exit c code signal w) c) = code"
  "signalCode (children (child_exit c code signal w) c) = signal"
  "killed (children (child_exit c code signal w) c) = killed (children w c)"
  "c' \<noteq> c \<Longrightarrow> children (child_exit c code signal w) c' = children w c'"
  by (simp_all add: child_exit_def logger_def Let_def)


lemma show_int_5001: "show_int 5001 = js ''5001''"
  by (simp add: show_int_def show_nat.simps js_def)

lemma restarted_server_eq:
  "\<lparr>port = 5001,
    url = js ''http://'' @ host example_config @ js '':'' @ show_int 5001 @ js ''/mcp'',
    userDataDir = substituteSessionId (user_data_dir example_config) (js ''shared''),
    outputDir = substituteSessionId (output_dir example_config) (js ''shared'')\<rparr> = restarted_server"
  by (simp add: restarted_server_def example_config_simps show_int_5001 example_dirs) (simp add: js_def)

lemma port_5000_busy:
  "findAvailablePort env_5000_busy (host example_config) (port_start example_config)
     (port_end example_config) = Inr 5001"
proof (rule findAvailablePort_ports_Inr_iff [THEN iffD2])
  show "0 \<le> port_start example_config" "port_end example_config \<le> 65535"
    by (simp_all add: example_config_simps)
  have "q = 5000" if "5000 \<le> q" "q < 5001" for q :: int
    using that by arith
  then show "port_start example_config \<le> 5001 \<and> 5001 \<le> port_end example_config
     \<and> listen env_5000_busy (host example_config) 5001
     \<and> (\<forall>q. port_start example_config \<le> q \<and> q < 5001
            \<longrightarrow> \<not> listen env_5000_busy (host example_config) q)"
    by (simp add: env_5000_busy_def example_config_simps)
qed

lemma env_5000_busy_simps:
  "mkdir env_5000_busy = (\<lambda>p. None)"
  "waitForPortOpen env_5000_busy h p t = None"
  by (simp_all add: env_5000_busy_def example_env_simps waitForPortOpen_def)

lemmas restart_start =
  start_attempt_ok [of env_5000_busy example_config 5001, OF _ _ port_5000_busy,
    unfolded restarted_server_eq, simplified env_5000_busy_simps, simplified]

lemma started_world_running:
  "\<not> killed (children started_world 0)" "\<not> exited (children started_world 0)"
  by (simp_all add: started_world_facts exited_def)

lemma restart_w2_facts:
  "killed (children restart_w2 0)"
  "startPromise restart_w2 = Some (Inr \<lparr>info = example_server, child = 0\<rparr>)"
  "spawned restart_w2 = 1"
  using stop_running [where w = started_world and st = "\<lparr>info = example_server, child = 0\<rparr>"
      and e = example_env]
  by (simp_all add: restart_w2_def started_world_facts started_world_running)

lemma restart_w3_facts:
  "fst (ensureServer example_config env_5000_busy restart_w2) = Inr restarted_server"
  "startPromise restart_w3 = Some (Inr \<lparr>info = restarted_server, child = 1\<rparr>)"
  "spawned restart_w3 = 2"
  "killed (children restart_w3 1) = False"
  "exitCode (children restart_w3 1) = None"
  "signalCode (children restart_w3 1) = None"
proof -
  have stale: "ensureServer example_config env_5000_busy restart_w2
      = start_attempt example_config env_5000_busy
          (restart_w2\<lparr>startPromise := None, clientPromise := None\<rparr>)"
    by (rule ensureServer_stale [OF restart_w2_facts(2)]) (simp add: alive_def restart_w2_facts)
  note r = restart_start [where w = "restart_w2\<lparr>startPromise := None, clientPromise := None\<rparr>"]
  show "fst (ensureServer example_config env_5000_busy restart_w2) = Inr restarted_server"
    "startPromise restart_w3 = Some (Inr \<lparr>info = restarted_server, child = 1\<rparr>)"
    "spawned restart_w3 = 2"
    "killed (children restart_w3 1) = False"
    "exitCode (children restart_w3 1) = None"
    "signalCode (children restart_w3 1) = None"
    using r by (simp_all add: restart_w3_def stale restart_w2_facts)
qed

lemma restart_w4_facts:
  "startPromise restart_w4 = None"
  "spawned restart_w4 = 2"
  "children restart_w4 1 = children restart_w3 1"
  "signalCode (children restart_w4 0) = Some (js ''SIGTERM'')"
  by (simp_all add: restart_w4_def child_exit_facts restart_w3_facts)

lemma restart_w5_facts:
  "fst (ensureServer example_config example_env restart_w4) = Inr example_server"
  "startPromise restart_w5 = Some (Inr \<lparr>info = example_server, child = 2\<rparr>)"
  "spawned restart_w5 = 3"
  "killed (children restart_w5 2) = False"
  "exitCode (children restart_w5 2) = None"
  "signalCode (children restart_w5 2) = None"
  "children restart_w5 1 = children restart_w4 1"
  using example_start [where w = restart_w4] example_start(8) [where w = restart_w4 and c = 1]
  by (simp_all add: restart_w5_def ensureServer_idle restart_w4_facts)

text \<open>
  C3. The claim fails on the restart above. The first call starts child 0 on port 5000;
  \<^verbatim>\<open>stop()\<close> kills it; the second call sees the killed child, starts child 1 and returns
  its info (port 5001). Then the exit event of child 0 arrives: its handler clears
  \<^verbatim>\<open>startPromise\<close> and \<^verbatim>\<open>clientPromise\<close>, although they belong to child 1 by now. Child 1
  is still alive (not killed, no exit code) and has not ended, yet the third call does
  not return its info: it spawns child 2. Afterwards children 1 and 2 are both alive
  and running, and the manager knows only child 2.
\<close>

theorem ensureServer_second_live_process:
  "fst (ensureServer example_config example_env new_world) = Inr example_server
   \<and> fst (ensureServer example_config env_5000_busy (stop example_env started_world))
       = Inr restarted_server
   \<and> spawned restart_w4 = 2
   \<and> alive (children restart_w4 1) \<and> \<not> exited (children restart_w4 1)
   \<and> fst (ensureServer example_config example_env restart_w4) = Inr example_server
   \<and> spawned restart_w5 = 3
   \<and> alive (children restart_w5 1) \<and> \<not> exited (children restart_w5 1)
   \<and> alive (children restart_w5 2) \<and> \<not> exited (children restart_w5 2)
   \<and> startPromise restart_w5 = Some (Inr \<lparr>info = example_server, child = 2\<rparr>)"
  using restart_w3_facts(1)
  by (simp add: started_world_facts restart_w4_facts restart_w3_facts
      restart_w5_facts alive_def exited_def restart_w2_def del: One_nat_def)

lemma connected_world_running:
  "\<not> killed (children connected_world 0)" "\<not> exited (children connected_world 0)"
  by (simp_all add: connected_world_facts started_world_facts exited_def)

lemma stopped_world_facts:
  "killed (children stopped_world 0)"
  "startPromise stopped_world = Some (Inr \<lparr>info = example_server, child = 0\<rparr>)"
  "clientPromise stopped_world = Some (Inr example_client)"
  "spawned stopped_world = 1"
  using stop_running [where w = connected_world and st = "\<lparr>info = example_server, child = 0\<rparr>"
      and e = example_env]
  by (simp_all add: stopped_world_def connected_world_facts started_world_running)


lemma no_ports:
  "findAvailablePort env_no_ports (host example_config) (port_start example_config)
     (port_end example_config) = Inl (PortExhausted 5000 5002)"
  by (rule findAvailablePort_ports_Inl_iff [THEN iffD2])
     (simp_all add: env_no_ports_def example_config_simps)

lemma ensureServer_no_ports:
  "ensureServer example_config env_no_ports stopped_world =
     (Inl (PortExhausted 5000 5002), stopped_world\<lparr>startPromise := None, clientPromise := None\<rparr>)"
proof -
  let ?w = "stopped_world\<lparr>startPromise := None, clientPromise := None\<rparr>"
  have "startServer example_config env_no_ports ?w = (Inl (PortExhausted 5000 5002), ?w)"
    by (rule startServer_no_port [OF _ _ no_ports])
       (simp_all add: env_no_ports_def example_env_simps)
  moreover have "ensureServer example_config env_no_ports stopped_world
      = start_attempt example_config env_no_ports ?w"
    by (rule ensureServer_stale [OF stopped_world_facts(2)])
       (simp add: alive_def stopped_world_facts)
  ultimately show ?thesis
    by (simp add: start_attempt_def)
qed

lemma waitForPortOpen_rounds_never: "\<not> waitForPortOpen_rounds (replicate n False)"
  by (induction n) auto

lemma never_ready: "waitForPortOpen env_never_ready h p t = Some (StartTimeout h p)"
  by (simp add: waitForPortOpen_def env_never_ready_def waitForPortOpen_rounds_never)

lemma never_ready_port:
  "findAvailablePort env_never_ready (host example_config) (port_start example_config)
     (port_end example_config) = Inr 5000"
proof -
  have "tryPort env_never_ready = tryPort example_env"
    by (rule tryPort_listen) (simp add: env_never_ready_def)
  with port_all_free show ?thesis
    by (simp add: findAvailablePort_def)
qed

lemma ensureServer_never_ready:
  "fst (ensureServer example_config env_never_ready new_world)
     = Inl (StartTimeout (js ''127.0.0.1'') 5000)"
  "killed (children (snd (ensureServer example_config env_never_ready new_world)) 0)"
proof -
  note t = startServer_timeout [of env_never_ready example_config 5000, OF _ _ never_ready_port never_ready,
      where w = new_world]
  have m: "mkdir env_never_ready p = None" for p
    by (simp add: env_never_ready_def example_env_simps)
  have idle: "ensureServer example_config env_never_ready new_world
      = start_attempt example_config env_never_ready new_world"
    by (rule ensureServer_idle) (simp add: new_world_def)
  have s0: "spawned new_world = 0"
    by (simp add: new_world_def)
  show "fst (ensureServer example_config env_never_ready new_world)
     = Inl (StartTimeout (js ''127.0.0.1'') 5000)"
    using t(1) by (simp add: idle start_attempt_unfold m example_config_simps)
  show "killed (children (snd (ensureServer example_config env_never_ready new_world)) 0)"
    using t(1,5) by (simp add: idle start_attempt_unfold m s0 example_config_simps)
qed

theorem ensureServer_failure_clears_witness:
  "startPromise stopped_world = Some (Inr \<lparr>info = example_server, child = 0\<rparr>)
   \<and> clientPromise stopped_world = Some (Inr example_client)
   \<and> fst (ensureServer example_config env_no_ports stopped_world) = Inl (PortExhausted 5000 5002)
   \<and> startPromise (snd (ensureServer example_config env_no_ports stopped_world)) = None
   \<and> clientPromise (snd (ensureServer example_config env_no_ports stopped_world)) = None
   \<and> fst (ensureServer example_config example_env
        (snd (ensureServer example_config env_no_ports stopped_world))) = Inr example_server
   \<and> fst (ensureServer example_config env_never_ready new_world)
       = Inl (StartTimeout (js ''127.0.0.1'') 5000)
   \<and> killed (children (snd (ensureServer example_config env_never_ready new_world)) 0)
   \<and> startPromise (snd (ensureServer example_config env_never_ready new_world)) = None
   \<and> clientPromise (snd (ensureServer example_config env_never_ready new_world)) = None
   \<and> fst (ensureServer example_config example_env
        (snd (ensureServer example_config env_never_ready new_world))) = Inr example_server"
proof -
  let ?w' = "stopped_world\<lparr>startPromise := None, clientPromise := None\<rparr>"
  have inv: "start_not_rejected stopped_world"
    by (simp add: start_not_rejected_def stopped_world_facts)
  from ensureServer_failure_clears [OF inv ensureServer_no_ports, where ?e2.0 = example_env]
  have "startPromise ?w' = None \<and> clientPromise ?w' = None
     \<and> ensureServer example_config example_env ?w'
         = start_attempt example_config example_env ?w'"
    by simp
  with example_start(1) [where w = ?w'] stopped_world_facts
  have exhausted:
    "startPromise stopped_world = Some (Inr \<lparr>info = example_server, child = 0\<rparr>)
     \<and> clientPromise stopped_world = Some (Inr example_client)
     \<and> fst (ensureServer example_config env_no_ports stopped_world)
         = Inl (PortExhausted 5000 5002)
     \<and> startPromise (snd (ensureServer example_config env_no_ports stopped_world)) = None
     \<and> clientPromise (snd (ensureServer example_config env_no_ports stopped_world)) = None
     \<and> fst (ensureServer example_config example_env
          (snd (ensureServer example_config env_no_ports stopped_world))) = Inr example_server"
    by (simp add: ensureServer_no_ports)
  let ?v = "snd (ensureServer example_config env_never_ready new_world)"
  have run: "ensureServer example_config env_never_ready new_world
      = (Inl (StartTimeout (js ''127.0.0.1'') 5000), ?v)"
    using ensureServer_never_ready(1) by (metis prod.collapse)
  from ensureServer_failure_clears [OF start_not_rejected_new_world run, where ?e2.0 = example_env]
  have "startPromise ?v = None \<and> clientPromise ?v = None
     \<and> ensureServer example_config example_env ?v
         = start_attempt example_config example_env ?v"
    by simp
  with example_start(1) [where w = ?v] ensureServer_never_ready
  have timeout:
    "fst (ensureServer example_config env_never_ready new_world)
       = Inl (StartTimeout (js ''127.0.0.1'') 5000)
     \<and> killed (children (snd (ensureServer example_config env_never_ready new_world)) 0)
     \<and> startPromise (snd (ensureServer example_config env_never_ready new_world)) = None
     \<and> clientPromise (snd (ensureServer example_config env_never_ready new_world)) = None
     \<and> fst (ensureServer example_config example_env
          (snd (ensureServer example_config env_never_ready new_world))) = Inr example_server"
    by simp
  from exhausted timeout show ?thesis by simp
qed

section \<open>Negotiation\<close>

lemma ensureClient_unfold:
  "ensureClient e server w =
     (case clientPromise w of
        Some r \<Rightarrow> (r, w)
      | None \<Rightarrow> (fst (createClient e server w),
                 (snd (createClient e server w))
                   \<lparr>clientPromise := Some (fst (createClient e server w))\<rparr>))"
  by (simp add: ensureClient_def split: prod.splits option.splits)

lemma length_js_mcp: "length (js ''/mcp'') = 4"
  by (simp add: js_def)

lemma sse_pathname_strip: "sse_pathname (q @ js ''/mcp'') = q @ js ''/sse''"
  by (simp add: sse_pathname_def endsWith_def length_js_mcp)

lemma sse_pathname_append:
  assumes "\<not> endsWith p (js ''/mcp'')"
  shows "sse_pathname p = p @ js ''/sse''"
  using assms by (simp add: sse_pathname_def)

lemma createClient_primary_fails:
  assumes "new_URL e (url server) = Some u"
    and "connect e (StreamableHTTPClientTransport u) = Some err"
  shows "logs (snd (createClient e server w)) =
           logs w @ [(Warn, js ''[playwright-mcp] streamable HTTP connect failed (''
                            @ String_of_error err @ js ''), falling back to SSE'')]"
    and "connects (snd (createClient e server w)) =
           connects w @ [StreamableHTTPClientTransport u,
                         SSEClientTransport (u\<lparr>pathname := sse_pathname (pathname u)\<rparr>)]"
    and "fst (createClient e server w) =
           (case connect e (SSEClientTransport (u\<lparr>pathname := sse_pathname (pathname u)\<rparr>)) of
              None \<Rightarrow> Inr (Client (SSEClientTransport (u\<lparr>pathname := sse_pathname (pathname u)\<rparr>)))
            | Some err2 \<Rightarrow> Inl err2)"
  using assms
  by (simp_all add: createClient_def Let_def logger_def split: option.splits)

text \<open>
  C9. When the URL of the server parses and the primary transport fails to connect,
  \<^verbatim>\<open>createClient\<close> logs one warning that names the failure, and makes exactly one more
  connection attempt, over the SSE transport at the same URL with the path rewritten.
  The call succeeds with the client on that transport when the fallback connects, and
  fails exactly when the fallback fails, with the fallback's error. The rewritten path
  is the path without a trailing \<^verbatim>\<open>/mcp\<close>, followed by \<^verbatim>\<open>/sse\<close>.
\<close>

theorem createClient_falls_back_once:
  assumes "new_URL e (url server) = Some u"
    and "connect e (StreamableHTTPClientTransport u) = Some err"
  shows "logs (snd (createClient e server w)) =
           logs w @ [(Warn, js ''[playwright-mcp] streamable HTTP connect failed (''
                            @ String_of_error err @ js ''), falling back to SSE'')]
     \<and> connects (snd (createClient e server w)) =
           connects w @ [StreamableHTTPClientTransport u,
                         SSEClientTransport (u\<lparr>pathname := sse_pathname (pathname u)\<rparr>)]
     \<and> (connect e (SSEClientTransport (u\<lparr>pathname := sse_pathname (pathname u)\<rparr>)) = None \<longrightarrow>
          fst (createClient e server w)
            = Inr (Client (SSEClientTransport (u\<lparr>pathname := sse_pathname (pathname u)\<rparr>))))
     \<and> (\<forall>err2. connect e (SSEClientTransport (u\<lparr>pathname := sse_pathname (pathname u)\<rparr>)) = Some err2 \<longrightarrow>
          fst (createClient e server w) = Inl err2)
     \<and> (\<forall>x. fst (createClient e server w) = Inl x \<longrightarrow>
          connect e (SSEClientTransport (u\<lparr>pathname := sse_pathname (pathname u)\<rparr>)) = Some x)
     \<and> sse_pathname (q @ js ''/mcp'') = q @ js ''/sse''
     \<and> (\<not> endsWith p (js ''/mcp'') \<longrightarrow> sse_pathname p = p @ js ''/sse'')"
  using createClient_primary_fails [OF assms, where w = w]
  by (auto simp: sse_pathname_strip sse_pathname_append split: option.splits)

theorem createClient_falls_back_once_witness:
  "fst (createClient env_primary_down example_server started_world)
     = Inr (Client (SSEClientTransport (example_url\<lparr>pathname := js ''/sse''\<rparr>)))
   \<and> connects (snd (createClient env_primary_down example_server started_world))
       = [StreamableHTTPClientTransport example_url,
          SSEClientTransport (example_url\<lparr>pathname := js ''/sse''\<rparr>)]
   \<and> logs (snd (createClient env_primary_down example_server started_world))
       = logs started_world
         @ [(Warn, js ''[playwright-mcp] streamable HTTP connect failed (''
                   @ js ''Error: ECONNREFUSED'' @ js ''), falling back to SSE'')]"
proof -
  have u: "new_URL env_primary_down (url example_server) = Some example_url"
    by (simp add: env_primary_down_def example_env_simps)
  have down: "connect env_primary_down (StreamableHTTPClientTransport example_url)
      = Some (Thrown (js ''Error: ECONNREFUSED''))"
    by (simp add: env_primary_down_def)
  have up: "connect env_primary_down (SSEClientTransport x) = None" for x
    by (simp add: env_primary_down_def)
  have path: "sse_pathname (pathname example_url) = js ''/sse''"
    using sse_pathname_strip [of "[]"] by (simp add: example_url_def)
  from createClient_falls_back_once [OF u down, where w = started_world]
  show ?thesis
    by (simp add: up path started_world_facts)
qed

lemma refused_world_facts:
  "fst (ensureClient env_refused example_server started_world)
     = Inl (Thrown (js ''Error: ECONNREFUSED''))"
  "clientPromise refused_world = Some (Inl (Thrown (js ''Error: ECONNREFUSED'')))"
  "startPromise refused_world = Some (Inr \<lparr>info = example_server, child = 0\<rparr>)"
  "children refused_world = children started_world"
  "connects refused_world =
     [StreamableHTTPClientTransport example_url,
      SSEClientTransport (example_url\<lparr>pathname := sse_pathname (pathname example_url)\<rparr>)]"
proof -
  have u: "new_URL env_refused (url example_server) = Some example_url"
    by (simp add: env_refused_def example_env_simps)
  have down: "connect env_refused t = Some (Thrown (js ''Error: ECONNREFUSED''))" for t
    by (simp add: env_refused_def)
  note c = createClient_primary_fails [OF u down, where w = started_world]
    createClient_promises [of env_refused example_server started_world]
  have ch: "children (snd (createClient env_refused example_server started_world))
      = children started_world"
    by (simp add: createClient_def Let_def logger_def u down)
  show "fst (ensureClient env_refused example_server started_world)
     = Inl (Thrown (js ''Error: ECONNREFUSED''))"
    "clientPromise refused_world = Some (Inl (Thrown (js ''Error: ECONNREFUSED'')))"
    "startPromise refused_world = Some (Inr \<lparr>info = example_server, child = 0\<rparr>)"
    "children refused_world = children started_world"
    "connects refused_world =
     [StreamableHTTPClientTransport example_url,
      SSEClientTransport (example_url\<lparr>pathname := sse_pathname (pathname example_url)\<rparr>)]"
    using c ch
    by (simp_all add: refused_world_def ensureClient_unfold started_world_facts down)
qed

text \<open>
  C2. The second half of the claim fails. On a running server, a first \<^verbatim>\<open>ensureClient\<close>
  in which both transports refuse the connection fails, and the rejected promise stays
  in \<^verbatim>\<open>clientPromise\<close>. Afterwards the server is still alive and the primary transport
  would connect, but \<^verbatim>\<open>ensureClient\<close> makes no attempt: it returns the cached rejection
  and leaves the world as it is, and \<^verbatim>\<open>takeScreenshot\<close> fails with the same error.
\<close>

theorem ensureClient_replays_cached_failure:
  "fst (ensureClient env_refused example_server started_world)
     = Inl (Thrown (js ''Error: ECONNREFUSED''))
   \<and> clientPromise refused_world = Some (Inl (Thrown (js ''Error: ECONNREFUSED'')))
   \<and> connect example_env (StreamableHTTPClientTransport example_url) = None
   \<and> fst (ensureServer example_config example_env refused_world) = Inr example_server
   \<and> ensureClient example_env example_server refused_world
       = (Inl (Thrown (js ''Error: ECONNREFUSED'')), refused_world)
   \<and> fst (takeScreenshot example_config example_env
            \<lparr>sessionId = js ''s1'', callId = None, tool = None\<rparr> refused_world)
       = Inl (Thrown (js ''Error: ECONNREFUSED''))"
proof -
  have alive: "alive (children refused_world (child \<lparr>info = example_server, child = 0\<rparr>))"
    by (simp add: refused_world_facts started_world_facts alive_def)
  have server: "ensureServer example_config example_env refused_world
      = (Inr example_server, refused_world)"
    using ensureServer_cached [OF refused_world_facts(3) alive] by simp
  have client: "ensureClient example_env example_server refused_world
       = (Inl (Thrown (js ''Error: ECONNREFUSED'')), refused_world)"
    by (rule ensureClient_cached [OF refused_world_facts(2)])
  show ?thesis
    by (simp add: refused_world_facts server client takeScreenshot_def example_env_simps)
qed

section \<open>The file name of a screenshot\<close>

lemma sanitize_Nil: "sanitize [] = []"
  by (simp add: sanitize_def)

lemma sanitize_keep:
  assumes "tool_char c"
  shows "sanitize (c # cs) = c # sanitize cs"
  using assms by (simp add: sanitize_def)

lemma dropWhile_run:
  assumes "list_all C bad" and "rest = [] \<or> \<not> C (hd rest)"
  shows "dropWhile C (bad @ rest) = rest"
proof -
  have "dropWhile C rest = rest"
    using assms(2) by (cases rest) auto
  with assms(1) show ?thesis
    by (induction bad) auto
qed

lemma sanitize_run:
  assumes "bad \<noteq> []" and "list_all (\<lambda>c. \<not> tool_char c) bad"
    and "rest = [] \<or> tool_char (hd rest)"
  shows "sanitize (bad @ rest) = js ''-'' @ sanitize rest"
proof -
  from assms(1) obtain b bs where bad: "bad = b # bs"
    by (cases bad) auto
  with assms(2) have b: "\<not> tool_char b" and bs: "list_all (\<lambda>c. \<not> tool_char c) bs"
    by simp_all
  have "dropWhile (\<lambda>c. \<not> tool_char c) (bs @ rest) = rest"
    using bs assms(3) by (intro dropWhile_run) auto
  with b show ?thesis
    by (simp add: sanitize_def bad)
qed

lemma sanitize_chars: "list_all tool_char (sanitize t)"
  unfolding sanitize_def
  by (induction "\<lambda>c. \<not> tool_char c" "js ''-''" t rule: replace_class_plus.induct)
     (auto simp: js_def tool_char_def)

lemma sanitize_nonempty:
  assumes "t \<noteq> []"
  shows "sanitize t \<noteq> []"
  using assms by (cases t) (auto simp: sanitize_def js_def)

lemma safeTool_cases:
  "tool opts = None \<or> tool opts = Some [] \<Longrightarrow> safeTool opts = js ''call''"
  "tool opts = Some t \<Longrightarrow> t \<noteq> [] \<Longrightarrow> safeTool opts = sanitize t"
  by (auto simp: safeTool_def)

lemma safeTool_chars: "list_all tool_char (safeTool opts)"
  by (auto simp: safeTool_def sanitize_chars js_def tool_char_def split: option.splits)

lemma safeTool_nonempty: "safeTool opts \<noteq> []"
  by (auto simp: safeTool_def sanitize_nonempty js_def split: option.splits)

lemma relFileName_eq:
  "relFileName e opts =
     path_join e (sessionId opts)
       (safeTool opts @ js ''-'' @ (case callId opts of None \<Rightarrow> js ''auto'' | Some i \<Rightarrow> i)
        @ js ''-'' @ show_nat (Date_now e) @ js ''.png'')"
  by (simp add: relFileName_def safeTool_nonempty)

text \<open>
  Where no two neighbours are both outside the class, the two sanitizers agree.
\<close>

lemma sanitize_spec_agree:
  assumes "\<forall>i. Suc i < length t \<longrightarrow> tool_char (t ! i) \<or> tool_char (t ! Suc i)"
  shows "sanitize t = spec_sanitize t"
  using assms
proof (induction t)
  case Nil
  then show ?case by (simp add: sanitize_def spec_sanitize_def)
next
  case (Cons c cs)
  have rest: "\<forall>i. Suc i < length cs \<longrightarrow> tool_char (cs ! i) \<or> tool_char (cs ! Suc i)"
  proof (intro allI impI)
    fix i assume "Suc i < length cs"
    with Cons.prems [rule_format, of "Suc i"] show "tool_char (cs ! i) \<or> tool_char (cs ! Suc i)"
      by simp
  qed
  have IH: "sanitize cs = spec_sanitize cs"
    using Cons.IH rest by blast
  show ?case
  proof (cases "tool_char c")
    case True
    with IH show ?thesis by (simp add: sanitize_def spec_sanitize_def)
  next
    case False
    have "cs = [] \<or> tool_char (hd cs)"
    proof (cases cs)
      case Nil then show ?thesis by simp
    next
      case (Cons d ds)
      with Cons.prems [rule_format, of 0] False show ?thesis by simp
    qed
    then have "dropWhile (\<lambda>c. \<not> tool_char c) cs = cs"
      by (cases cs) auto
    with False IH show ?thesis
      by (simp add: sanitize_def spec_sanitize_def js_def)
  qed
qed

lemma takeScreenshot_after_setup:
  assumes "ensureServer cfg e w = (Inr server, w1)"
    and "ensureClient e server w1 = (Inr cl, w2)"
    and "mkdir e (path_dirname e (expectedPath e server opts)) = None"
  shows "takeScreenshot cfg e opts w =
     (case screenshot_try e (relFileName e opts) (expectedPath e server opts) w2 of
        (Inl err, w3) \<Rightarrow>
          (Inr None,
           logger Debug (js ''[playwright-mcp] screenshot failed: '' @ String_of_error err) w3)
      | (Inr r, w3) \<Rightarrow> (Inr r, w3))"
  using assms by (simp add: takeScreenshot_def)

lemma interpret_response_tool_calls:
  "tool_calls (snd (interpret_response e expected res w)) = tool_calls w"
  by (simp add: interpret_response_def Let_def logger_def split: option.splits)

lemma screenshot_try_tool_calls:
  "tool_calls (snd (screenshot_try e rel expected w)) = tool_calls w @ [rel]"
  by (simp add: screenshot_try_def Let_def interpret_response_tool_calls split: sum.splits)

lemma takeScreenshot_tool_calls:
  assumes "ensureServer cfg e w = (Inr server, w1)"
    and "ensureClient e server w1 = (Inr cl, w2)"
    and "mkdir e (path_dirname e (expectedPath e server opts)) = None"
  shows "tool_calls (snd (takeScreenshot cfg e opts w)) = tool_calls w2 @ [relFileName e opts]"
proof -
  let ?t = "screenshot_try e (relFileName e opts) (expectedPath e server opts) w2"
  have "tool_calls (snd (takeScreenshot cfg e opts w)) = tool_calls (snd ?t)"
    by (cases ?t) (auto simp: takeScreenshot_after_setup [OF assms] logger_def split: sum.splits)
  then show ?thesis
    by (simp add: screenshot_try_tool_calls)
qed

text \<open>
  C7, amended. The tool field is sanitized by replacing every maximal run of characters
  outside \<^verbatim>\<open>[A-Za-z0-9_-]\<close> with one \<^verbatim>\<open>-\<close> (not every character of the run), and an
  absent or empty tool gives \<^verbatim>\<open>"call"\<close>: a character of the class is kept, and a run of
  characters outside it that ends at the end of the text or before a character of the
  class becomes a single dash. The result agrees with the character-by-character
  replacement whenever no two neighbouring characters are both outside the class; it
  is never empty and has only characters of the class. The relative file name is
  \<^verbatim>\<open>sessionId\<close> joined with \<^verbatim>\<open>{tool}-{callId or "auto"}-{timestamp}.png\<close>, and it is the
  file name \<^verbatim>\<open>takeScreenshot\<close> passes to the tool, once per request that gets as far as
  the tool call.
\<close>

theorem takeScreenshot_file_name:
  "(tool opts = None \<or> tool opts = Some [] \<longrightarrow> safeTool opts = js ''call'')
   \<and> (tool opts = Some t \<and> t \<noteq> [] \<longrightarrow> safeTool opts = sanitize t)
   \<and> sanitize [] = []
   \<and> (tool_char c \<longrightarrow> sanitize (c # cs) = c # sanitize cs)
   \<and> (bad \<noteq> [] \<and> list_all (\<lambda>c. \<not> tool_char c) bad \<and> (rest = [] \<or> tool_char (hd rest))
        \<longrightarrow> sanitize (bad @ rest) = js ''-'' @ sanitize rest)
   \<and> ((\<forall>i. Suc i < length t \<longrightarrow> tool_char (t ! i) \<or> tool_char (t ! Suc i))
        \<longrightarrow> sanitize t = spec_sanitize t)
   \<and> list_all tool_char (safeTool opts) \<and> safeTool opts \<noteq> []
   \<and> relFileName e opts =
        path_join e (sessionId opts)
          (safeTool opts @ js ''-'' @ (case callId opts of None \<Rightarrow> js ''auto'' | Some i \<Rightarrow> i)
           @ js ''-'' @ show_nat (Date_now e) @ js ''.png'')
   \<and> (ensureServer cfg e w = (Inr server, w1) \<and> ensureClient e server w1 = (Inr cl, w2)
        \<and> mkdir e (path_dirname e (expectedPath e server opts)) = None
        \<longrightarrow> tool_calls (snd (takeScreenshot cfg e opts w)) = tool_calls w2 @ [relFileName e opts])"
proof (intro conjI impI)
  show "safeTool opts = js ''call''" if "tool opts = None \<or> tool opts = Some []"
    using that by (rule safeTool_cases(1))
  show "safeTool opts = sanitize t" if "tool opts = Some t \<and> t \<noteq> []"
    using that by (simp add: safeTool_cases(2))
  show "sanitize [] = []" by (rule sanitize_Nil)
  show "sanitize (c # cs) = c # sanitize cs" if "tool_char c"
    using that by (rule sanitize_keep)
  show "sanitize (bad @ rest) = js ''-'' @ sanitize rest"
    if "bad \<noteq> [] \<and> list_all (\<lambda>c. \<not> tool_char c) bad \<and> (rest = [] \<or> tool_char (hd rest))"
    using that by (simp add: sanitize_run)
  show "sanitize t = spec_sanitize t"
    if "\<forall>i. Suc i < length t \<longrightarrow> tool_char (t ! i) \<or> tool_char (t ! Suc i)"
    using that by (rule sanitize_spec_agree)
  show "list_all tool_char (safeTool opts)" by (rule safeTool_chars)
  show "safeTool opts \<noteq> []" by (rule safeTool_nonempty)
  show "relFileName e opts =
        path_join e (sessionId opts)
          (safeTool opts @ js ''-'' @ (case callId opts of None \<Rightarrow> js ''auto'' | Some i \<Rightarrow> i)
           @ js ''-'' @ show_nat (Date_now e) @ js ''.png'')"
    by (rule relFileName_eq)
  show "tool_calls (snd (takeScreenshot cfg e opts w)) = tool_calls w2 @ [relFileName e opts]"
    if "ensureServer cfg e w = (Inr server, w1) \<and> ensureClient e server w1 = (Inr cl, w2)
        \<and> mkdir e (path_dirname e (expectedPath e server opts)) = None"
    using that by (simp add: takeScreenshot_tool_calls)
qed

lemma connected_setup:
  "ensureServer example_config e connected_world = (Inr example_server, connected_world)"
  "ensureClient e example_server connected_world = (Inr example_client, connected_world)"
proof -
  have "alive (children connected_world (child \<lparr>info = example_server, child = 0\<rparr>))"
    by (simp add: connected_world_facts started_world_facts alive_def)
  from ensureServer_cached [OF connected_world_facts(3) this]
  show "ensureServer example_config e connected_world = (Inr example_server, connected_world)"
    by simp
  show "ensureClient e example_server connected_world = (Inr example_client, connected_world)"
    by (rule ensureClient_cached [OF connected_world_facts(2)])
qed

lemma example_safeTool: "safeTool example_opts = js ''a-b''"
  by (simp add: safeTool_def sanitize_def js_def tool_char_def example_opts_def)

lemma example_relFileName: "relFileName example_env example_opts = js ''s1/a-b-auto-7.png''"
  by (simp add: relFileName_eq example_safeTool example_env_simps)
     (simp add: example_opts_def show_nat.simps js_def)

theorem takeScreenshot_file_name_witness:
  "safeTool example_opts = js ''a-b''
   \<and> sanitize (js ''!!'' @ js ''b'') = js ''-'' @ sanitize (js ''b'')
   \<and> relFileName example_env example_opts = js ''s1/a-b-auto-7.png''
   \<and> tool_calls (snd (takeScreenshot example_config example_env example_opts connected_world))
       = [js ''s1/a-b-auto-7.png'']"
proof -
  have t: "tool example_opts = Some (js ''a!!b'')" "js ''a!!b'' \<noteq> []"
    by (simp_all add: example_opts_def js_def)
  have run: "js ''!!'' \<noteq> []" "list_all (\<lambda>c. \<not> tool_char c) (js ''!!'')"
    "js ''b'' = [] \<or> tool_char (hd (js ''b''))"
    by (simp_all add: js_def tool_char_def)
  have dir: "mkdir example_env (path_dirname example_env
      (expectedPath example_env example_server example_opts)) = None"
    by (simp add: example_env_simps)
  from takeScreenshot_file_name
         [where opts = example_opts and t = "js ''a!!b''" and bad = "js ''!!''" and rest = "js ''b''"
            and e = example_env and cfg = example_config and w = connected_world
            and server = example_server and ?w1.0 = connected_world and cl = example_client
            and ?w2.0 = connected_world]
  have "safeTool example_opts = sanitize (js ''a!!b'')"
    "sanitize (js ''!!'' @ js ''b'') = js ''-'' @ sanitize (js ''b'')"
    "tool_calls (snd (takeScreenshot example_config example_env example_opts connected_world))
       = tool_calls connected_world @ [relFileName example_env example_opts]"
    using t run dir connected_setup by blast+
  then show ?thesis
    by (simp add: example_safeTool example_relFileName connected_world_facts)
qed

text \<open>
  C7 as stated fails for the tool \<^verbatim>\<open>a!!b\<close>: replacing every character outside the
  class gives \<^verbatim>\<open>a--b\<close>, the code gives \<^verbatim>\<open>a-b\<close>.
\<close>

theorem sanitize_not_char_by_char:
  "safeTool \<lparr>sessionId = js ''s1'', callId = None, tool = Some (js ''a!!b'')\<rparr> = js ''a-b''
   \<and> spec_sanitize (js ''a!!b'') = js ''a--b''
   \<and> js ''a-b'' \<noteq> js ''a--b''"
  by (simp add: safeTool_def sanitize_def spec_sanitize_def js_def tool_char_def)

section \<open>The snippet of a tool error\<close>

lemma ws_collapsed_Cons:
  "ws_collapsed (a # xs) \<longleftrightarrow>
     (is_space a \<longrightarrow> a = 32 \<and> (xs = [] \<or> \<not> is_space (hd xs))) \<and> ws_collapsed xs"
  by (cases xs) auto

lemma ws_collapsed_append:
  "ws_collapsed (xs @ ys) \<longleftrightarrow>
     ws_collapsed xs \<and> ws_collapsed ys
     \<and> (xs = [] \<or> ys = [] \<or> \<not> is_space (last xs) \<or> \<not> is_space (hd ys))"
proof (induction xs)
  case Nil
  then show ?case by simp
next
  case (Cons a xs)
  show ?case
  proof (cases xs)
    case Nil
    then show ?thesis
      by (cases ys) (auto simp: ws_collapsed_Cons)
  next
    case (Cons b bs)
    with Cons.IH show ?thesis
      by (auto simp: ws_collapsed_Cons)
  qed
qed

lemma ws_collapsed_dropWhile:
  assumes "ws_collapsed s"
  shows "ws_collapsed (dropWhile P s)"
proof -
  have "ws_collapsed (takeWhile P s @ dropWhile P s)"
    using assms by simp
  then show ?thesis
    unfolding ws_collapsed_append by blast
qed

lemma ws_collapsed_take:
  assumes "ws_collapsed s"
  shows "ws_collapsed (take n s)"
proof -
  have "ws_collapsed (take n s @ drop n s)"
    using assms by simp
  then show ?thesis
    unfolding ws_collapsed_append by blast
qed

lemma ws_collapsed_rev_dropWhile_rev:
  assumes "ws_collapsed s"
  shows "ws_collapsed (rev (dropWhile P (rev s)))"
proof -
  have "rev (dropWhile P (rev s)) @ rev (takeWhile P (rev s)) = s"
    by (metis rev_append rev_rev_ident takeWhile_dropWhile_id)
  with assms have "ws_collapsed (rev (dropWhile P (rev s)) @ rev (takeWhile P (rev s)))"
    by simp
  then show ?thesis
    unfolding ws_collapsed_append by blast
qed

lemma ws_collapsed_trim:
  assumes "ws_collapsed s"
  shows "ws_collapsed (trim s)"
  unfolding trim_def
  by (intro ws_collapsed_rev_dropWhile_rev ws_collapsed_dropWhile assms)

lemma collapse_head:
  "replace_class_plus is_space (js '' '') s = [] \<and> s = []
   \<or> (\<exists>ys. replace_class_plus is_space (js '' '') s = hd s # ys \<and> \<not> is_space (hd s) \<and> s \<noteq> [])
   \<or> (\<exists>ys. replace_class_plus is_space (js '' '') s = 32 # ys \<and> is_space (hd s) \<and> s \<noteq> [])"
  by (cases s) (auto simp: js_def)

lemma ws_collapsed_collapse: "ws_collapsed (replace_class_plus is_space (js '' '') s)"
proof (induction "is_space" "js '' ''" s rule: replace_class_plus.induct)
  case 1
  then show ?case by simp
next
  case (2 c cs)
  show ?case
  proof (cases "is_space c")
    case False
    with 2 show ?thesis
      by (simp add: ws_collapsed_Cons)
  next
    case True
    let ?d = "dropWhile is_space cs"
    have d: "?d = [] \<or> \<not> is_space (hd ?d)"
      by (metis hd_dropWhile)
    have "replace_class_plus is_space (js '' '') ?d = []
        \<or> \<not> is_space (hd (replace_class_plus is_space (js '' '') ?d))"
      using collapse_head [of ?d] d by auto
    moreover have "ws_collapsed (replace_class_plus is_space (js '' '') ?d)"
      using 2(1) [OF True] .
    ultimately show ?thesis
      using True by (simp add: ws_collapsed_Cons js_def)
  qed
qed

lemma ws_collapsed_ellipsis: "ws_collapsed ellipsis" "\<not> is_space (hd ellipsis)" "ellipsis \<noteq> []"
  by (simp_all add: ellipsis_def is_space_def)

lemma safeSnippet_cases:
  "length (trim (replace_class_plus is_space (js '' '') text)) \<le> n \<Longrightarrow>
     safeSnippet text n = trim (replace_class_plus is_space (js '' '') text)"
  "n < length (trim (replace_class_plus is_space (js '' '') text)) \<Longrightarrow>
     safeSnippet text n = take n (trim (replace_class_plus is_space (js '' '') text)) @ ellipsis"
  by (simp_all add: safeSnippet_def Let_def)

lemma ws_collapsed_safeSnippet: "ws_collapsed (safeSnippet text n)"
proof -
  let ?clean = "trim (replace_class_plus is_space (js '' '') text)"
  have c: "ws_collapsed ?clean"
    by (intro ws_collapsed_trim ws_collapsed_collapse)
  show ?thesis
  proof (cases "length ?clean \<le> n")
    case True
    with c show ?thesis by (simp add: safeSnippet_cases)
  next
    case False
    then have "safeSnippet text n = take n ?clean @ ellipsis"
      by (simp add: safeSnippet_cases)
    moreover have "ws_collapsed (take n ?clean @ ellipsis)"
      unfolding ws_collapsed_append
      using ws_collapsed_take [OF c] ws_collapsed_ellipsis by blast
    ultimately show ?thesis by simp
  qed
qed

lemma length_safeSnippet: "length (safeSnippet text n) \<le> n + length ellipsis"
  by (simp add: safeSnippet_def Let_def)

lemma takeScreenshot_tool_error:
  assumes "ensureServer cfg e w = (Inr server, w1)"
    and "ensureClient e server w1 = (Inr cl, w2)"
    and "mkdir e (path_dirname e (expectedPath e server opts)) = None"
    and "callTool e (relFileName e opts) = Inr res"
    and "isError res"
  shows "takeScreenshot cfg e opts w =
     (Inr None,
      logger Debug
        (js ''[playwright-mcp] screenshot tool error: '' @ safeSnippet (tool_error_text res) 240)
        (w2\<lparr>tool_calls := tool_calls w2 @ [relFileName e opts]\<rparr>))"
  using assms(4,5)
  by (simp add: takeScreenshot_after_setup [OF assms(1-3)] screenshot_try_def
      interpret_response_def Let_def)

text \<open>
  C8, amended. When the tool response signals an error, \<^verbatim>\<open>takeScreenshot\<close> returns
  \<^verbatim>\<open>null\<close> without throwing and logs, at debug level, the snippet of the error text. The
  snippet is whitespace-collapsed. It is the collapsed and trimmed text itself when that
  has at most 240 characters; otherwise it is the first 240 characters of it followed by
  the truncation mark, so it is longer than 240 characters: 240 plus the length of the
  mark.
\<close>

theorem tool_error_snippet:
  "(ensureServer cfg e w = (Inr server, w1) \<and> ensureClient e server w1 = (Inr cl, w2)
      \<and> mkdir e (path_dirname e (expectedPath e server opts)) = None
      \<and> callTool e (relFileName e opts) = Inr res \<and> isError res
      \<longrightarrow> takeScreenshot cfg e opts w =
            (Inr None,
             logger Debug
               (js ''[playwright-mcp] screenshot tool error: ''
                @ safeSnippet (tool_error_text res) 240)
               (w2\<lparr>tool_calls := tool_calls w2 @ [relFileName e opts]\<rparr>)))
   \<and> ws_collapsed (safeSnippet s 240)
   \<and> length (safeSnippet s 240) \<le> 240 + length ellipsis
   \<and> (length (trim (replace_class_plus is_space (js '' '') s)) \<le> 240
        \<longrightarrow> safeSnippet s 240 = trim (replace_class_plus is_space (js '' '') s))
   \<and> (240 < length (trim (replace_class_plus is_space (js '' '') s))
        \<longrightarrow> safeSnippet s 240
              = take 240 (trim (replace_class_plus is_space (js '' '') s)) @ ellipsis
          \<and> length (safeSnippet s 240) = 240 + length ellipsis)"
proof (intro conjI impI)
  show "takeScreenshot cfg e opts w =
            (Inr None,
             logger Debug
               (js ''[playwright-mcp] screenshot tool error: ''
                @ safeSnippet (tool_error_text res) 240)
               (w2\<lparr>tool_calls := tool_calls w2 @ [relFileName e opts]\<rparr>))"
    if "ensureServer cfg e w = (Inr server, w1) \<and> ensureClient e server w1 = (Inr cl, w2)
      \<and> mkdir e (path_dirname e (expectedPath e server opts)) = None
      \<and> callTool e (relFileName e opts) = Inr res \<and> isError res"
    using that
      takeScreenshot_tool_error
        [where cfg = cfg and e = e and w = w and server = server and ?w1.0 = w1 and cl = cl
           and ?w2.0 = w2 and opts = opts and res = res]
    by simp
  show "ws_collapsed (safeSnippet s 240)"
    by (rule ws_collapsed_safeSnippet)
  show "length (safeSnippet s 240) \<le> 240 + length ellipsis"
    by (rule length_safeSnippet)
  show "safeSnippet s 240 = trim (replace_class_plus is_space (js '' '') s)"
    if "length (trim (replace_class_plus is_space (js '' '') s)) \<le> 240"
    using that by (rule safeSnippet_cases(1))
  show "safeSnippet s 240
              = take 240 (trim (replace_class_plus is_space (js '' '') s)) @ ellipsis"
    if "240 < length (trim (replace_class_plus is_space (js '' '') s))"
    using that by (rule safeSnippet_cases(2))
  show "length (safeSnippet s 240) = 240 + length ellipsis"
    if "240 < length (trim (replace_class_plus is_space (js '' '') s))"
    using that by (simp add: safeSnippet_cases(2))
qed

lemma env_tool_error_simps:
  "mkdir (env_tool_error t) = (\<lambda>p. None)"
  "callTool (env_tool_error t) f = Inr (error_response t)"
  "isError (error_response t)"
  "tool_error_text (error_response t) = t"
  by (simp_all add: env_tool_error_def error_response_def tool_error_text_def example_env_simps)

theorem tool_error_snippet_witness:
  "takeScreenshot example_config (env_tool_error (js ''  boom   bang '')) example_opts
     connected_world =
     (Inr None,
      logger Debug (js ''[playwright-mcp] screenshot tool error: '' @ js ''boom bang'')
        (connected_world
           \<lparr>tool_calls := tool_calls connected_world
              @ [relFileName (env_tool_error (js ''  boom   bang '')) example_opts]\<rparr>))
   \<and> ws_collapsed (js ''boom bang'')"
proof -
  let ?e = "env_tool_error (js ''  boom   bang '')"
  have clean: "trim (replace_class_plus is_space (js '' '') (js ''  boom   bang ''))
      = js ''boom bang''"
    by (simp add: trim_def js_def is_space_def)
  then have short: "length (trim (replace_class_plus is_space (js '' '') (js ''  boom   bang '')))
      \<le> 240"
    by (simp add: js_def)
  from tool_error_snippet
         [where cfg = example_config and e = ?e and w = connected_world
            and server = example_server and ?w1.0 = connected_world and cl = example_client
            and ?w2.0 = connected_world and opts = example_opts
            and res = "error_response (js ''  boom   bang '')"
            and s = "js ''  boom   bang ''"]
  have "takeScreenshot example_config ?e example_opts connected_world =
     (Inr None,
      logger Debug
        (js ''[playwright-mcp] screenshot tool error: ''
         @ safeSnippet (js ''  boom   bang '') 240)
        (connected_world
           \<lparr>tool_calls := tool_calls connected_world @ [relFileName ?e example_opts]\<rparr>))"
    and "ws_collapsed (safeSnippet (js ''  boom   bang '') 240)"
    and "safeSnippet (js ''  boom   bang '') 240
          = trim (replace_class_plus is_space (js '' '') (js ''  boom   bang ''))"
    using short by (auto simp: connected_setup env_tool_error_simps)
  then show ?thesis
    by (simp add: clean)
qed

lemma collapse_no_space:
  assumes "\<forall>c\<in>set s. \<not> is_space c"
  shows "replace_class_plus is_space r s = s"
  using assms by (induction s) auto

lemma dropWhile_none:
  assumes "\<forall>c\<in>set s. \<not> P c"
  shows "dropWhile P s = s"
  using assms by (cases s) auto

lemma trim_no_space:
  assumes "\<forall>c\<in>set s. \<not> is_space c"
  shows "trim s = s"
proof -
  have "dropWhile is_space s = s"
    using assms by (rule dropWhile_none)
  moreover have "dropWhile is_space (rev s) = rev s"
    using assms by (intro dropWhile_none) simp
  ultimately show ?thesis
    by (simp add: trim_def)
qed

lemma long_snippet: "safeSnippet (replicate 241 97) 240 = replicate 240 97 @ ellipsis"
proof -
  have ns: "\<forall>c\<in>set (replicate 241 97). \<not> is_space c"
    by (simp add: is_space_def)
  have "trim (replace_class_plus is_space (js '' '') (replicate 241 97)) = replicate 241 97"
    by (simp only: collapse_no_space [OF ns] trim_no_space [OF ns])
  then show ?thesis
    by (simp add: safeSnippet_def)
qed

text \<open>
  C8 as stated fails for an error text of 241 letters: the logged snippet is 240 letters
  and the mark, 243 characters with the mark as the source text has it (241 with a
  one-character ellipsis).
\<close>

theorem tool_error_snippet_longer_than_240:
  "takeScreenshot example_config (env_tool_error (replicate 241 97)) example_opts connected_world =
     (Inr None,
      logger Debug
        (js ''[playwright-mcp] screenshot tool error: '' @ replicate 240 97 @ ellipsis)
        (connected_world
           \<lparr>tool_calls := tool_calls connected_world
              @ [relFileName (env_tool_error (replicate 241 97)) example_opts]\<rparr>))
   \<and> length (replicate 240 97 @ ellipsis) = 243"
proof -
  have "takeScreenshot example_config (env_tool_error (replicate 241 97)) example_opts
      connected_world =
     (Inr None,
      logger Debug
        (js ''[playwright-mcp] screenshot tool error: ''
         @ safeSnippet (tool_error_text (error_response (replicate 241 97))) 240)
        (connected_world
           \<lparr>tool_calls := tool_calls connected_world
              @ [relFileName (env_tool_error (replicate 241 97)) example_opts]\<rparr>))"
    by (rule takeScreenshot_tool_error [OF connected_setup])
       (simp_all add: env_tool_error_simps)
  then show ?thesis
    by (simp add: env_tool_error_simps long_snippet ellipsis_def)
qed

section \<open>Which errors a screenshot request throws\<close>

lemma takeScreenshot_Inl:
  assumes "fst (takeScreenshot cfg e opts w) = Inl err"
  shows "fst (ensureServer cfg e w) = Inl err
     \<or> (\<exists>server w1. ensureServer cfg e w = (Inr server, w1)
           \<and> (fst (ensureClient e server w1) = Inl err
              \<or> (\<exists>cl w2. ensureClient e server w1 = (Inr cl, w2)
                   \<and> mkdir e (path_dirname e (expectedPath e server opts)) = Some err)))"
proof (cases "ensureServer cfg e w")
  case s: (Pair rs w1)
  show ?thesis
  proof (cases rs)
    case (Inl x)
    with s assms show ?thesis by (simp add: takeScreenshot_def)
  next
    case server: (Inr server)
    show ?thesis
    proof (cases "ensureClient e server w1")
      case c: (Pair rc w2)
      show ?thesis
      proof (cases rc)
        case (Inl x)
        with s server c assms show ?thesis by (simp add: takeScreenshot_def)
      next
        case cl: (Inr cl)
        show ?thesis
        proof (cases "mkdir e (path_dirname e (expectedPath e server opts))")
          case None
          with s server c cl assms show ?thesis
            by (simp add: takeScreenshot_def split: prod.splits sum.splits)
        next
          case (Some x)
          with s server c cl assms show ?thesis by (simp add: takeScreenshot_def)
        qed
      qed
    qed
  qed
qed

lemma takeScreenshot_mkdir_fails:
  assumes "ensureServer cfg e w = (Inr server, w1)"
    and "ensureClient e server w1 = (Inr cl, w2)"
    and "mkdir e (path_dirname e (expectedPath e server opts)) = Some x"
  shows "takeScreenshot cfg e opts w = (Inl x, w2)"
  using assms by (simp add: takeScreenshot_def)

lemma takeScreenshot_returns:
  assumes "ensureServer cfg e w = (Inr server, w1)"
    and "ensureClient e server w1 = (Inr cl, w2)"
    and "mkdir e (path_dirname e (expectedPath e server opts)) = None"
  shows "\<exists>r. fst (takeScreenshot cfg e opts w) = Inr r"
  by (simp add: takeScreenshot_after_setup [OF assms] split: prod.splits sum.splits)

lemma takeScreenshot_catches:
  assumes "ensureServer cfg e w = (Inr server, w1)"
    and "ensureClient e server w1 = (Inr cl, w2)"
    and "mkdir e (path_dirname e (expectedPath e server opts)) = None"
    and "screenshot_try e (relFileName e opts) (expectedPath e server opts) w2 = (Inl x, w3)"
  shows "takeScreenshot cfg e opts w =
           (Inr None,
            logger Debug (js ''[playwright-mcp] screenshot failed: '' @ String_of_error x) w3)"
  using assms(4) by (simp add: takeScreenshot_after_setup [OF assms(1-3)])

lemma screenshot_try_callTool_throws:
  assumes "callTool e rel = Inl x"
  shows "screenshot_try e rel expected w = (Inl x, w\<lparr>tool_calls := tool_calls w @ [rel]\<rparr>)"
  using assms by (simp add: screenshot_try_def)

lemma screenshot_try_writeFile_throws:
  assumes "callTool e rel = Inr res" and "\<not> isError res"
    and "base64 res = Some d" and "d \<noteq> []"
    and "writeFile e expected (Buffer_from_base64 e d) = Some x"
  shows "screenshot_try e rel expected w = (Inl x, w\<lparr>tool_calls := tool_calls w @ [rel]\<rparr>)"
  using assms by (simp add: screenshot_try_def interpret_response_def)

lemma screenshot_try_Inl:
  assumes "screenshot_try e rel expected w = (Inl x, w3)"
  shows "callTool e rel = Inl x
     \<or> (\<exists>res d. callTool e rel = Inr res \<and> \<not> isError res \<and> base64 res = Some d \<and> d \<noteq> []
           \<and> writeFile e expected (Buffer_from_base64 e d) = Some x)"
  using assms
  by (auto simp: screenshot_try_def interpret_response_def Let_def
      split: sum.splits if_splits option.splits)

text \<open>
  C1, amended. \<^verbatim>\<open>takeScreenshot\<close> throws only when the server start fails, when the client
  negotiation fails, or when the directory of the expected path cannot be made: that
  \<^verbatim>\<open>mkdir\<close> comes after the client and before the \<^verbatim>\<open>try\<close>, and its error reaches the
  caller. Once the directory is there the call always returns a value: every error
  thrown inside the \<^verbatim>\<open>try\<close> block, which can only come from the tool call or from
  writing the file, is logged at debug level and turned into \<^verbatim>\<open>null\<close>.
\<close>

theorem takeScreenshot_error_sources:
  "(fst (takeScreenshot cfg e opts w) = Inl err \<longrightarrow>
      fst (ensureServer cfg e w) = Inl err
      \<or> (\<exists>server w1. ensureServer cfg e w = (Inr server, w1)
            \<and> (fst (ensureClient e server w1) = Inl err
               \<or> (\<exists>cl w2. ensureClient e server w1 = (Inr cl, w2)
                    \<and> mkdir e (path_dirname e (expectedPath e server opts)) = Some err))))
   \<and> (ensureServer cfg e w = (Inr server, w1) \<and> ensureClient e server w1 = (Inr cl, w2)
        \<and> mkdir e (path_dirname e (expectedPath e server opts)) = Some x
        \<longrightarrow> takeScreenshot cfg e opts w = (Inl x, w2))
   \<and> (ensureServer cfg e w = (Inr server, w1) \<and> ensureClient e server w1 = (Inr cl, w2)
        \<and> mkdir e (path_dirname e (expectedPath e server opts)) = None
        \<longrightarrow> (\<exists>r. fst (takeScreenshot cfg e opts w) = Inr r)
          \<and> (\<forall>y w3. screenshot_try e (relFileName e opts) (expectedPath e server opts) w2
                        = (Inl y, w3)
                \<longrightarrow> takeScreenshot cfg e opts w =
                      (Inr None,
                       logger Debug
                         (js ''[playwright-mcp] screenshot failed: '' @ String_of_error y) w3))
          \<and> (\<forall>y. callTool e (relFileName e opts) = Inl y
                \<longrightarrow> takeScreenshot cfg e opts w =
                      (Inr None,
                       logger Debug
                         (js ''[playwright-mcp] screenshot failed: '' @ String_of_error y)
                         (w2\<lparr>tool_calls := tool_calls w2 @ [relFileName e opts]\<rparr>)))
          \<and> (\<forall>res d y. callTool e (relFileName e opts) = Inr res \<and> \<not> isError res
                  \<and> base64 res = Some d \<and> d \<noteq> []
                  \<and> writeFile e (expectedPath e server opts) (Buffer_from_base64 e d) = Some y
                \<longrightarrow> takeScreenshot cfg e opts w =
                      (Inr None,
                       logger Debug
                         (js ''[playwright-mcp] screenshot failed: '' @ String_of_error y)
                         (w2\<lparr>tool_calls := tool_calls w2 @ [relFileName e opts]\<rparr>))))"
proof (intro conjI impI allI)
  show "fst (ensureServer cfg e w) = Inl err
      \<or> (\<exists>server w1. ensureServer cfg e w = (Inr server, w1)
            \<and> (fst (ensureClient e server w1) = Inl err
               \<or> (\<exists>cl w2. ensureClient e server w1 = (Inr cl, w2)
                    \<and> mkdir e (path_dirname e (expectedPath e server opts)) = Some err)))"
    if "fst (takeScreenshot cfg e opts w) = Inl err"
    using that by (rule takeScreenshot_Inl)
next
  assume "ensureServer cfg e w = (Inr server, w1) \<and> ensureClient e server w1 = (Inr cl, w2)
        \<and> mkdir e (path_dirname e (expectedPath e server opts)) = Some x"
  then show "takeScreenshot cfg e opts w = (Inl x, w2)"
    by (simp add: takeScreenshot_mkdir_fails)
next
  assume a: "ensureServer cfg e w = (Inr server, w1) \<and> ensureClient e server w1 = (Inr cl, w2)
        \<and> mkdir e (path_dirname e (expectedPath e server opts)) = None"
  then have s: "ensureServer cfg e w = (Inr server, w1)" "ensureClient e server w1 = (Inr cl, w2)"
    "mkdir e (path_dirname e (expectedPath e server opts)) = None"
    by simp_all
  show "\<exists>r. fst (takeScreenshot cfg e opts w) = Inr r"
    by (rule takeScreenshot_returns [OF s])
  show "takeScreenshot cfg e opts w =
          (Inr None,
           logger Debug (js ''[playwright-mcp] screenshot failed: '' @ String_of_error y) w3)"
    if "screenshot_try e (relFileName e opts) (expectedPath e server opts) w2 = (Inl y, w3)"
    for y w3
    using that by (rule takeScreenshot_catches [OF s])
  show "takeScreenshot cfg e opts w =
          (Inr None,
           logger Debug (js ''[playwright-mcp] screenshot failed: '' @ String_of_error y)
             (w2\<lparr>tool_calls := tool_calls w2 @ [relFileName e opts]\<rparr>))"
    if "callTool e (relFileName e opts) = Inl y" for y
    by (rule takeScreenshot_catches [OF s]) (rule screenshot_try_callTool_throws [OF that])
  show "takeScreenshot cfg e opts w =
          (Inr None,
           logger Debug (js ''[playwright-mcp] screenshot failed: '' @ String_of_error y)
             (w2\<lparr>tool_calls := tool_calls w2 @ [relFileName e opts]\<rparr>))"
    if "callTool e (relFileName e opts) = Inr res \<and> \<not> isError res
          \<and> base64 res = Some d \<and> d \<noteq> []
          \<and> writeFile e (expectedPath e server opts) (Buffer_from_base64 e d) = Some y"
    for res d y
  proof -
    from that have t: "callTool e (relFileName e opts) = Inr res" "\<not> isError res"
      "base64 res = Some d" "d \<noteq> []"
      "writeFile e (expectedPath e server opts) (Buffer_from_base64 e d) = Some y"
      by blast+
    show ?thesis
      by (rule takeScreenshot_catches [OF s]) (rule screenshot_try_writeFile_throws [OF t])
  qed
qed

theorem takeScreenshot_error_sources_witness:
  "takeScreenshot example_config env_tool_throws example_opts connected_world =
     (Inr None,
      logger Debug (js ''[playwright-mcp] screenshot failed: '' @ js ''Error: Connection closed'')
        (connected_world
           \<lparr>tool_calls := tool_calls connected_world
              @ [relFileName env_tool_throws example_opts]\<rparr>))"
proof -
  have dir: "mkdir env_tool_throws
      (path_dirname env_tool_throws (expectedPath env_tool_throws example_server example_opts))
      = None"
    by (simp add: env_tool_throws_def example_env_simps)
  have call: "callTool env_tool_throws (relFileName env_tool_throws example_opts)
      = Inl (Thrown (js ''Error: Connection closed''))"
    by (simp add: env_tool_throws_def)
  from takeScreenshot_error_sources
         [where cfg = example_config and e = env_tool_throws and opts = example_opts
            and w = connected_world and server = example_server and ?w1.0 = connected_world
            and cl = example_client and ?w2.0 = connected_world]
    connected_setup [where e = env_tool_throws] dir call
  show ?thesis
    by simp
qed

lemma env_session_dir_simps:
  "listen env_session_dir = listen example_env"
  "waitForPortOpen env_session_dir h p t = None"
  "new_URL env_session_dir = (\<lambda>s. Some example_url)"
  "connect env_session_dir = (\<lambda>t. None)"
  "path_join env_session_dir = (\<lambda>a b. a @ js ''/'' @ b)"
  "path_dirname env_session_dir = (\<lambda>p. rev (drop 1 (dropWhile (\<lambda>c. c \<noteq> 47) (rev p))))"
  "Date_now env_session_dir = 7"
  "mkdir env_session_dir (js ''/tmp/pw/shared/profile'') = None"
  "mkdir env_session_dir (js ''/tmp/pw/shared/out'') = None"
  "mkdir env_session_dir (js ''/tmp/pw/shared/out/s1'')
     = Some (Thrown (js ''Error: EACCES: permission denied, mkdir''))"
  by (simp_all add: env_session_dir_def example_env_simps waitForPortOpen_def)
     (simp_all add: example_env_def js_def)

lemma session_dir_port:
  "findAvailablePort env_session_dir (host example_config) (port_start example_config)
     (port_end example_config) = Inr 5000"
proof -
  have "tryPort env_session_dir = tryPort example_env"
    by (rule tryPort_listen) (simp add: env_session_dir_simps)
  with port_all_free show ?thesis
    by (simp add: findAvailablePort_def)
qed

lemmas session_dir_start =
  start_attempt_ok [of env_session_dir example_config 5000, OF _ _ session_dir_port,
    unfolded example_server_eq,
    simplified example_config_simps example_dirs env_session_dir_simps, simplified]

lemma session_dir_expected:
  "path_dirname env_session_dir (expectedPath env_session_dir example_server example_opts)
     = js ''/tmp/pw/shared/out/s1''"
proof -
  have "relFileName env_session_dir example_opts = js ''s1/a-b-auto-7.png''"
    by (simp add: relFileName_eq example_safeTool env_session_dir_simps)
       (simp add: example_opts_def show_nat.simps js_def)
  then show ?thesis
    by (simp add: expectedPath_def env_session_dir_simps example_server_def)
       (simp add: js_def)
qed

text \<open>
  C1 as stated fails: on a new manager, in a world where only the session's directory
  cannot be made, the server starts and the client connects, and \<^verbatim>\<open>takeScreenshot\<close>
  still throws.
\<close>

theorem takeScreenshot_throws_after_client:
  "fst (ensureServer example_config env_session_dir new_world) = Inr example_server
   \<and> fst (ensureClient env_session_dir example_server
        (snd (ensureServer example_config env_session_dir new_world))) = Inr example_client
   \<and> fst (takeScreenshot example_config env_session_dir example_opts new_world)
       = Inl (Thrown (js ''Error: EACCES: permission denied, mkdir''))"
proof -
  let ?w1 = "snd (ensureServer example_config env_session_dir new_world)"
  let ?w2 = "snd (ensureClient env_session_dir example_server ?w1)"
  have idle: "ensureServer example_config env_session_dir new_world
      = start_attempt example_config env_session_dir new_world"
    by (rule ensureServer_idle) (simp add: new_world_def)
  have server: "fst (ensureServer example_config env_session_dir new_world) = Inr example_server"
    using session_dir_start(1) [where w = new_world] by (simp add: idle)
  have "clientPromise new_world = None"
    by (simp add: new_world_def)
  then have no_client: "clientPromise ?w1 = None"
    using session_dir_start(3) [where w = new_world] by (simp add: idle)
  have client: "fst (ensureClient env_session_dir example_server ?w1) = Inr example_client"
    by (simp add: ensureClient_unfold no_client example_client_def
        createClient_primary_ok [where u = example_url] env_session_dir_simps)
  have "takeScreenshot example_config env_session_dir example_opts new_world
      = (Inl (Thrown (js ''Error: EACCES: permission denied, mkdir'')), ?w2)"
  proof (rule takeScreenshot_mkdir_fails)
    show "ensureServer example_config env_session_dir new_world = (Inr example_server, ?w1)"
      using server by (metis prod.collapse)
    show "ensureClient env_session_dir example_server ?w1 = (Inr example_client, ?w2)"
      using client by (metis prod.collapse)
    show "mkdir env_session_dir
        (path_dirname env_session_dir (expectedPath env_session_dir example_server example_opts))
        = Some (Thrown (js ''Error: EACCES: permission denied, mkdir''))"
      by (simp only: session_dir_expected env_session_dir_simps(10))
  qed
  with server client show ?thesis by simp
qed

section \<open>How the tool response is interpreted\<close>

lemma interpret_error:
  assumes "isError res"
  shows "fst (interpret_response e expected res w) = Inr None"
  using assms by (simp add: interpret_response_def)

lemma interpret_image:
  assumes "\<not> isError res" and "base64 res = Some d" and "d \<noteq> []"
    and "writeFile e expected (Buffer_from_base64 e d) = None"
  shows "interpret_response e expected res w =
           (Inr (Some \<lparr>savedPath = Some expected, mimeType = image_mimeType res\<rparr>),
            w\<lparr>writes := writes w @ [(expected, Buffer_from_base64 e d)]\<rparr>)"
  using assms by (simp add: interpret_response_def)

lemma interpret_scan:
  assumes "\<not> isError res" and "base64 res = None \<or> base64 res = Some []"
  shows "interpret_response e expected res w = (Inr (scan_candidates e expected res), w)"
  using assms by (auto simp: interpret_response_def)

lemma scan_candidates_eq:
  "scan_candidates e expected res =
     map_option (\<lambda>c. \<lparr>savedPath = Some c, mimeType = image_mimeType res\<rparr>)
       (find (access e) (candidates expected res))"
  by (simp add: scan_candidates_def split: option.splits)

lemma extract_in_candidates:
  assumes "extractFirstLinkedFilePath t = Some p"
  shows "p \<in> set (link_candidates t)"
proof (cases "find image_ext (link_candidates t)")
  case None
  with assms show ?thesis
    by (auto simp: extractFirstLinkedFilePath_def split: list.splits)
next
  case (Some q)
  with assms have "q = p"
    by (simp add: extractFirstLinkedFilePath_def)
  with Some show ?thesis
    by (auto simp: find_Some_iff)
qed

lemma extract_nonempty:
  assumes "extractFirstLinkedFilePath t = Some p"
  shows "p \<noteq> []"
  using extract_in_candidates [OF assms] by (auto simp: link_candidates_def)

lemma linkedPath_nonempty:
  assumes "linkedPath res = Some p"
  shows "p \<noteq> []"
  using assms by (auto simp: linkedPath_def split: option.splits dest: extract_nonempty)

lemma candidates_eq:
  "candidates expected res =
     (case linkedPath res of Some p \<Rightarrow> [p] | None \<Rightarrow> [])
     @ (if expected = [] then [] else [expected])"
  by (auto simp: candidates_def split: option.splits dest: linkedPath_nonempty)

lemma extract_preferred:
  assumes "find image_ext (link_candidates t) = Some p"
  shows "extractFirstLinkedFilePath t = Some p"
  using assms by (simp add: extractFirstLinkedFilePath_def)

lemma extract_first:
  assumes "find image_ext (link_candidates t) = None"
  shows "extractFirstLinkedFilePath t = (case link_candidates t of [] \<Rightarrow> None | q # _ \<Rightarrow> Some q)"
  using assms by (simp add: extractFirstLinkedFilePath_def)

lemma match_link_link:
  assumes "93 \<notin> set label" and "41 \<notin> set path" and "path \<noteq> []"
  shows "match_link ([91] @ label @ [93, 40] @ path @ [41] @ post) = Some (path, post)"
proof -
  have "dropWhile (\<lambda>x. x \<noteq> 93) (label @ 93 # 40 # path @ 41 # post) = 93 # 40 # path @ 41 # post"
    using assms(1) by (induction label) auto
  moreover have "takeWhile (\<lambda>x. x \<noteq> 41) (path @ 41 # post) = path"
    using assms(2) by (induction path) auto
  moreover have "dropWhile (\<lambda>x. x \<noteq> 41) (path @ 41 # post) = 41 # post"
    using assms(2) by (induction path) auto
  ultimately show ?thesis
    using assms(3) by (simp add: match_link_def)
qed

lemma match_link_no_bracket:
  assumes "c \<noteq> 91"
  shows "match_link (c # s) = None"
  using assms by (simp add: match_link_def)

text \<open>
  One markdown link in plain text: a prefix without an opening bracket, a label
  without a closing bracket and a non-empty path without a closing parenthesis.
\<close>

lemma link_groups_single:
  assumes "91 \<notin> set pre" and "93 \<notin> set label" and "41 \<notin> set path" and "path \<noteq> []"
  shows "link_groups (pre @ [91] @ label @ [93, 40] @ path @ [41] @ post)
           = path # link_groups post"
  using assms(1)
proof (induction pre)
  case Nil
  have "match_link (91 # label @ 93 # 40 # path @ 41 # post) = Some (path, post)"
    using match_link_link [OF assms(2-4), of post] by simp
  then show ?case by simp
next
  case (Cons c pre)
  then have "c \<noteq> 91" by auto
  with Cons show ?case
    by (simp add: match_link_no_bracket)
qed

lemma example_link:
  "extractFirstLinkedFilePath (js ''See [shot](/tmp/out/a.png)'') = Some (js ''/tmp/out/a.png'')"
proof -
  have t: "js ''See [shot](/tmp/out/a.png)''
      = js ''See '' @ [91] @ js ''shot'' @ [93, 40] @ js ''/tmp/out/a.png'' @ [41] @ []"
    by (simp add: js_def)
  have "link_groups (js ''See [shot](/tmp/out/a.png)'') = [js ''/tmp/out/a.png'']"
    unfolding t by (subst link_groups_single) (simp_all add: js_def)
  then have "link_candidates (js ''See [shot](/tmp/out/a.png)'') = [js ''/tmp/out/a.png'']"
    by (simp add: link_candidates_def trim_def js_def is_space_def)
  moreover have "image_ext (js ''/tmp/out/a.png'')"
    by (simp add: image_ext_def endsWith_def js_def)
  ultimately show ?thesis
    by (simp add: extractFirstLinkedFilePath_def)
qed

lemma takeScreenshot_interpret:
  assumes "ensureServer cfg e w = (Inr server, w1)"
    and "ensureClient e server w1 = (Inr cl, w2)"
    and "mkdir e (path_dirname e (expectedPath e server opts)) = None"
    and "callTool e (relFileName e opts) = Inr res"
  shows "takeScreenshot cfg e opts w =
     (case interpret_response e (expectedPath e server opts) res
             (w2\<lparr>tool_calls := tool_calls w2 @ [relFileName e opts]\<rparr>) of
        (Inl err, w3) \<Rightarrow>
          (Inr None,
           logger Debug (js ''[playwright-mcp] screenshot failed: '' @ String_of_error err) w3)
      | (Inr r, w3) \<Rightarrow> (Inr r, w3))"
  using assms(4)
  by (simp add: takeScreenshot_after_setup [OF assms(1-3)] screenshot_try_def)

lemma imageBlock_Some_iff:
  "imageBlock res = Some b \<longleftrightarrow>
     (\<exists>bs i. content res = Some bs \<and> i < length bs \<and> bs ! i = b
        \<and> btype b = Some (js ''image'')
        \<and> (\<forall>j<i. btype (bs ! j) \<noteq> Some (js ''image'')))"
proof (cases "content res")
  case None
  then show ?thesis by (simp add: imageBlock_def)
next
  case (Some bs)
  then have "imageBlock res = Some b \<longleftrightarrow> find (\<lambda>c. btype c = Some (js ''image'')) bs = Some b"
    by (simp add: imageBlock_def)
  also have "\<dots> \<longleftrightarrow> (\<exists>i<length bs. btype (bs ! i) = Some (js ''image'') \<and> b = bs ! i
        \<and> (\<forall>j<i. btype (bs ! j) \<noteq> Some (js ''image'')))"
    by (simp add: find_Some_iff)
  also have "\<dots> \<longleftrightarrow> (\<exists>bs' i. content res = Some bs' \<and> i < length bs' \<and> bs' ! i = b
        \<and> btype b = Some (js ''image'')
        \<and> (\<forall>j<i. btype (bs' ! j) \<noteq> Some (js ''image'')))"
    using Some by auto
  finally show ?thesis .
qed

lemma fromText_Some_iff:
  "fromText res = Some t \<longleftrightarrow>
     (\<exists>bs i. content res = Some bs \<and> i < length bs
        \<and> btype (bs ! i) = Some (js ''text'') \<and> btext (bs ! i) = Some t
        \<and> (\<forall>j<i. \<not> (btype (bs ! j) = Some (js ''text'') \<and> btext (bs ! j) \<noteq> None)))"
proof (cases "content res")
  case None
  then show ?thesis by (simp add: fromText_def)
next
  case (Some bs)
  let ?P = "\<lambda>c. btype c = Some (js ''text'') \<and> btext c \<noteq> None"
  have "fromText res = Some t \<longleftrightarrow> (\<exists>b. find ?P bs = Some b \<and> btext b = Some t)"
    using Some by (auto simp: fromText_def split: option.splits)
  also have "\<dots> \<longleftrightarrow> (\<exists>i<length bs. ?P (bs ! i) \<and> btext (bs ! i) = Some t
        \<and> (\<forall>j<i. \<not> ?P (bs ! j)))"
    by (auto simp: find_Some_iff)
  also have "\<dots> \<longleftrightarrow> (\<exists>bs' i. content res = Some bs' \<and> i < length bs'
        \<and> btype (bs' ! i) = Some (js ''text'') \<and> btext (bs' ! i) = Some t
        \<and> (\<forall>j<i. \<not> (btype (bs' ! j) = Some (js ''text'') \<and> btext (bs' ! j) \<noteq> None)))"
    using Some by auto
  finally show ?thesis .
qed

lemma takeScreenshot_image:
  assumes "ensureServer cfg e w = (Inr server, w1)"
    and "ensureClient e server w1 = (Inr cl, w2)"
    and "mkdir e (path_dirname e (expectedPath e server opts)) = None"
    and "callTool e (relFileName e opts) = Inr res"
    and "\<not> isError res" and "imageBlock res = Some b" and "bdata b = Some d" and "d \<noteq> []"
  shows "writeFile e (expectedPath e server opts) (Buffer_from_base64 e d) = None \<Longrightarrow>
           fst (takeScreenshot cfg e opts w)
             = Inr (Some \<lparr>savedPath = Some (expectedPath e server opts), mimeType = bmimeType b\<rparr>)
           \<and> writes (snd (takeScreenshot cfg e opts w))
               = writes w2 @ [(expectedPath e server opts, Buffer_from_base64 e d)]"
    and "writeFile e (expectedPath e server opts) (Buffer_from_base64 e d) = Some x \<Longrightarrow>
           fst (takeScreenshot cfg e opts w) = Inr None
           \<and> writes (snd (takeScreenshot cfg e opts w)) = writes w2"
proof -
  have b64: "base64 res = Some d" and mime: "image_mimeType res = bmimeType b"
    using assms(6,7) by (simp_all add: base64_def image_mimeType_def)
  show "fst (takeScreenshot cfg e opts w)
             = Inr (Some \<lparr>savedPath = Some (expectedPath e server opts), mimeType = bmimeType b\<rparr>)
           \<and> writes (snd (takeScreenshot cfg e opts w))
               = writes w2 @ [(expectedPath e server opts, Buffer_from_base64 e d)]"
    if "writeFile e (expectedPath e server opts) (Buffer_from_base64 e d) = None"
    by (simp add: takeScreenshot_interpret [OF assms(1-4)]
        interpret_image [OF assms(5) b64 assms(8) that] mime)
  show "fst (takeScreenshot cfg e opts w) = Inr None
           \<and> writes (snd (takeScreenshot cfg e opts w)) = writes w2"
    if "writeFile e (expectedPath e server opts) (Buffer_from_base64 e d) = Some x"
    using that assms(5,8) b64
    by (simp add: takeScreenshot_interpret [OF assms(1-4)] interpret_response_def logger_def)
qed

lemma takeScreenshot_scan:
  assumes "ensureServer cfg e w = (Inr server, w1)"
    and "ensureClient e server w1 = (Inr cl, w2)"
    and "mkdir e (path_dirname e (expectedPath e server opts)) = None"
    and "callTool e (relFileName e opts) = Inr res"
    and "\<not> isError res"
    and "imageBlock res = None
         \<or> (\<exists>b'. imageBlock res = Some b' \<and> (bdata b' = None \<or> bdata b' = Some []))"
  shows "fst (takeScreenshot cfg e opts w)
           = Inr (map_option (\<lambda>c. \<lparr>savedPath = Some c, mimeType = image_mimeType res\<rparr>)
                   (find (access e) (candidates (expectedPath e server opts) res)))
         \<and> writes (snd (takeScreenshot cfg e opts w)) = writes w2"
proof -
  from assms(6) have "base64 res = None \<or> base64 res = Some []"
    by (auto simp: base64_def)
  from interpret_scan [OF assms(5) this] show ?thesis
    by (simp add: takeScreenshot_interpret [OF assms(1-4)] scan_candidates_eq)
qed

text \<open>
  C6, amended. After a tool call that returns the response \<open>res\<close>: an explicit error
  yields \<^verbatim>\<open>null\<close>. Otherwise only the first image block counts: when it carries base64
  data that is not empty, the data is decoded and written to the expected path, and the
  call returns that path with the block's mime type (or \<^verbatim>\<open>null\<close> when the write fails).
  When there is no image block, or the first one has no data or empty data, the call
  returns the first of the candidates that exists on disk, with the mime type of the
  first image block if there is one, and \<^verbatim>\<open>null\<close> when none exists; nothing is written.
  The candidates are the linked path, if any, and then the expected path; the linked
  path comes from the first text block whose text is a string; among the links of that
  text the first one that ends in \<^verbatim>\<open>.png\<close>, \<^verbatim>\<open>.jpeg\<close> or \<^verbatim>\<open>.jpg\<close> is preferred, and
  otherwise the first link is taken.
\<close>

theorem takeScreenshot_response_precedence:
  assumes "ensureServer cfg e w = (Inr server, w1)"
    and "ensureClient e server w1 = (Inr cl, w2)"
    and "mkdir e (path_dirname e (expectedPath e server opts)) = None"
    and "callTool e (relFileName e opts) = Inr res"
  shows
   "(isError res \<longrightarrow> fst (takeScreenshot cfg e opts w) = Inr None)
    \<and> (\<not> isError res \<and> imageBlock res = Some b \<and> bdata b = Some d \<and> d \<noteq> []
         \<and> writeFile e (expectedPath e server opts) (Buffer_from_base64 e d) = None
        \<longrightarrow> fst (takeScreenshot cfg e opts w)
              = Inr (Some \<lparr>savedPath = Some (expectedPath e server opts),
                           mimeType = bmimeType b\<rparr>)
          \<and> writes (snd (takeScreenshot cfg e opts w))
              = writes w2 @ [(expectedPath e server opts, Buffer_from_base64 e d)])
    \<and> (\<not> isError res \<and> imageBlock res = Some b \<and> bdata b = Some d \<and> d \<noteq> []
         \<and> writeFile e (expectedPath e server opts) (Buffer_from_base64 e d) = Some x
        \<longrightarrow> fst (takeScreenshot cfg e opts w) = Inr None
          \<and> writes (snd (takeScreenshot cfg e opts w)) = writes w2)
    \<and> (\<not> isError res
         \<and> (imageBlock res = None
            \<or> (\<exists>b'. imageBlock res = Some b' \<and> (bdata b' = None \<or> bdata b' = Some [])))
        \<longrightarrow> fst (takeScreenshot cfg e opts w)
              = Inr (map_option (\<lambda>c. \<lparr>savedPath = Some c, mimeType = image_mimeType res\<rparr>)
                      (find (access e) (candidates (expectedPath e server opts) res)))
          \<and> writes (snd (takeScreenshot cfg e opts w)) = writes w2)
    \<and> (imageBlock res = Some b \<longleftrightarrow>
          (\<exists>bs i. content res = Some bs \<and> i < length bs \<and> bs ! i = b
             \<and> btype b = Some (js ''image'')
             \<and> (\<forall>j<i. btype (bs ! j) \<noteq> Some (js ''image''))))
    \<and> (fromText res = Some t \<longleftrightarrow>
          (\<exists>bs i. content res = Some bs \<and> i < length bs
             \<and> btype (bs ! i) = Some (js ''text'') \<and> btext (bs ! i) = Some t
             \<and> (\<forall>j<i. \<not> (btype (bs ! j) = Some (js ''text'') \<and> btext (bs ! j) \<noteq> None))))
    \<and> candidates expected res =
          (case linkedPath res of Some p \<Rightarrow> [p] | None \<Rightarrow> [])
          @ (if expected = [] then [] else [expected])
    \<and> (fromText res = None \<longrightarrow> linkedPath res = None)
    \<and> (fromText res = Some t \<longrightarrow> linkedPath res = extractFirstLinkedFilePath t)
    \<and> (find image_ext (link_candidates t) = Some p \<longrightarrow> extractFirstLinkedFilePath t = Some p)
    \<and> (find image_ext (link_candidates t) = None
        \<longrightarrow> extractFirstLinkedFilePath t
              = (case link_candidates t of [] \<Rightarrow> None | q # _ \<Rightarrow> Some q))
    \<and> (91 \<notin> set pre \<and> 93 \<notin> set label \<and> 41 \<notin> set path \<and> path \<noteq> []
        \<longrightarrow> link_groups (pre @ [91] @ label @ [93, 40] @ path @ [41] @ post)
              = path # link_groups post)"
proof (intro conjI impI)
  show "fst (takeScreenshot cfg e opts w) = Inr None" if "isError res"
    using that
    by (simp add: takeScreenshot_interpret [OF assms] interpret_response_def)
next
  assume a: "\<not> isError res \<and> imageBlock res = Some b \<and> bdata b = Some d \<and> d \<noteq> []
         \<and> writeFile e (expectedPath e server opts) (Buffer_from_base64 e d) = None"
  then have i: "\<not> isError res" "imageBlock res = Some b" "bdata b = Some d" "d \<noteq> []"
    and wr: "writeFile e (expectedPath e server opts) (Buffer_from_base64 e d) = None"
    by blast+
  from takeScreenshot_image(1) [OF assms i wr]
  show "fst (takeScreenshot cfg e opts w)
          = Inr (Some \<lparr>savedPath = Some (expectedPath e server opts), mimeType = bmimeType b\<rparr>)"
    and "writes (snd (takeScreenshot cfg e opts w))
          = writes w2 @ [(expectedPath e server opts, Buffer_from_base64 e d)]"
    by blast+
next
  assume a: "\<not> isError res \<and> imageBlock res = Some b \<and> bdata b = Some d \<and> d \<noteq> []
         \<and> writeFile e (expectedPath e server opts) (Buffer_from_base64 e d) = Some x"
  then have i: "\<not> isError res" "imageBlock res = Some b" "bdata b = Some d" "d \<noteq> []"
    and wr: "writeFile e (expectedPath e server opts) (Buffer_from_base64 e d) = Some x"
    by blast+
  from takeScreenshot_image(2) [OF assms i wr]
  show "fst (takeScreenshot cfg e opts w) = Inr None"
    and "writes (snd (takeScreenshot cfg e opts w)) = writes w2"
    by blast+
next
  assume a: "\<not> isError res
         \<and> (imageBlock res = None
            \<or> (\<exists>b'. imageBlock res = Some b' \<and> (bdata b' = None \<or> bdata b' = Some [])))"
  then have i: "\<not> isError res"
    "imageBlock res = None
       \<or> (\<exists>b'. imageBlock res = Some b' \<and> (bdata b' = None \<or> bdata b' = Some []))"
    by blast+
  from takeScreenshot_scan [OF assms i]
  show "fst (takeScreenshot cfg e opts w)
          = Inr (map_option (\<lambda>c. \<lparr>savedPath = Some c, mimeType = image_mimeType res\<rparr>)
                  (find (access e) (candidates (expectedPath e server opts) res)))"
    and "writes (snd (takeScreenshot cfg e opts w)) = writes w2"
    by blast+
next
  show "imageBlock res = Some b \<longleftrightarrow>
          (\<exists>bs i. content res = Some bs \<and> i < length bs \<and> bs ! i = b
             \<and> btype b = Some (js ''image'')
             \<and> (\<forall>j<i. btype (bs ! j) \<noteq> Some (js ''image'')))"
    by (rule imageBlock_Some_iff)
  show "fromText res = Some t \<longleftrightarrow>
          (\<exists>bs i. content res = Some bs \<and> i < length bs
             \<and> btype (bs ! i) = Some (js ''text'') \<and> btext (bs ! i) = Some t
             \<and> (\<forall>j<i. \<not> (btype (bs ! j) = Some (js ''text'') \<and> btext (bs ! j) \<noteq> None)))"
    by (rule fromText_Some_iff)
  show "candidates expected res =
          (case linkedPath res of Some p \<Rightarrow> [p] | None \<Rightarrow> [])
          @ (if expected = [] then [] else [expected])"
    by (rule candidates_eq)
  show "linkedPath res = None" if "fromText res = None"
    using that by (simp add: linkedPath_def)
  show "linkedPath res = extractFirstLinkedFilePath t" if "fromText res = Some t"
    using that by (simp add: linkedPath_def)
  show "extractFirstLinkedFilePath t = Some p" if "find image_ext (link_candidates t) = Some p"
    using that by (rule extract_preferred)
  show "extractFirstLinkedFilePath t
          = (case link_candidates t of [] \<Rightarrow> None | q # _ \<Rightarrow> Some q)"
    if "find image_ext (link_candidates t) = None"
    using that by (rule extract_first)
  show "link_groups (pre @ [91] @ label @ [93, 40] @ path @ [41] @ post) = path # link_groups post"
    if "91 \<notin> set pre \<and> 93 \<notin> set label \<and> 41 \<notin> set path \<and> path \<noteq> []"
    using that by (intro link_groups_single) blast+
qed

lemma env_answers_simps:
  "mkdir (env_answers res) = (\<lambda>p. None)"
  "callTool (env_answers res) f = Inr res"
  "writeFile (env_answers res) = (\<lambda>p b. None)"
  "Buffer_from_base64 (env_answers res) (js ''QUJD'') = [65, 66, 67]"
  "access (env_answers res) = (\<lambda>p. False)"
  "path_join (env_answers res) = path_join example_env"
  "Date_now (env_answers res) = 7"
  by (simp_all add: env_answers_def example_env_simps)

lemma env_link_simps:
  "mkdir env_link = (\<lambda>p. None)"
  "callTool env_link f = Inr link_response"
  "access env_link = (\<lambda>p. p = js ''/tmp/out/a.png'')"
  "path_join env_link = path_join example_env"
  "Date_now env_link = 7"
  by (simp_all add: env_link_def env_answers_simps)

lemma example_expectedPath:
  assumes "path_join e = path_join example_env" and "Date_now e = 7"
  shows "expectedPath e example_server example_opts = js ''/tmp/pw/shared/out/s1/a-b-auto-7.png''"
proof -
  have "relFileName e example_opts = js ''s1/a-b-auto-7.png''"
    by (simp add: relFileName_eq example_safeTool assms example_env_simps)
       (simp add: example_opts_def show_nat.simps js_def)
  then show ?thesis
    by (simp add: expectedPath_def assms example_env_simps example_server_def)
       (simp add: js_def)
qed

lemma example_blocks:
  "imageBlock image_response = Some (image_block (js ''QUJD'') (js ''image/png''))"
  "imageBlock link_response = None"
  "imageBlock two_images_response = Some (image_block [] (js ''image/png''))"
  "fromText link_response = Some (js ''See [shot](/tmp/out/a.png)'')"
  "fromText two_images_response = None"
  "image_mimeType link_response = None"
  "image_mimeType two_images_response = Some (js ''image/png'')"
  by (simp_all add: imageBlock_def fromText_def image_mimeType_def image_response_def
      link_response_def two_images_response_def image_block_def text_block_def)
     (simp_all add: js_def)

lemma example_response_simps:
  "\<not> isError image_response" "\<not> isError link_response"
  "bdata (image_block d m) = Some d" "bmimeType (image_block d m) = Some m"
  by (simp_all add: image_response_def link_response_def image_block_def)

theorem takeScreenshot_response_precedence_witness:
  "fst (takeScreenshot example_config (env_answers image_response) example_opts connected_world)
     = Inr (Some \<lparr>savedPath = Some (js ''/tmp/pw/shared/out/s1/a-b-auto-7.png''),
                  mimeType = Some (js ''image/png'')\<rparr>)
   \<and> writes (snd (takeScreenshot example_config (env_answers image_response) example_opts
        connected_world))
       = [(js ''/tmp/pw/shared/out/s1/a-b-auto-7.png'', [65, 66, 67])]
   \<and> fst (takeScreenshot example_config env_link example_opts connected_world)
       = Inr (Some \<lparr>savedPath = Some (js ''/tmp/out/a.png''), mimeType = None\<rparr>)"
proof -
  let ?e1 = "env_answers image_response"
  let ?exp = "js ''/tmp/pw/shared/out/s1/a-b-auto-7.png''"
  have exp1: "expectedPath ?e1 example_server example_opts = ?exp"
    by (rule example_expectedPath) (simp_all add: env_answers_simps)
  have exp2: "expectedPath env_link example_server example_opts = ?exp"
    by (rule example_expectedPath) (simp_all add: env_link_simps)
  have nonempty: "js ''QUJD'' \<noteq> []" "?exp \<noteq> []"
    by (simp_all add: js_def)
  note t1 = takeScreenshot_response_precedence
    [where cfg = example_config and e = ?e1 and w = connected_world
       and server = example_server and ?w1.0 = connected_world and cl = example_client
       and ?w2.0 = connected_world and opts = example_opts and res = image_response
       and b = "image_block (js ''QUJD'') (js ''image/png'')" and d = "js ''QUJD''",
     OF connected_setup]
  have first: "fst (takeScreenshot example_config ?e1 example_opts connected_world)
     = Inr (Some \<lparr>savedPath = Some ?exp, mimeType = Some (js ''image/png'')\<rparr>)
   \<and> writes (snd (takeScreenshot example_config ?e1 example_opts connected_world))
       = [(?exp, [65, 66, 67])]"
    using t1 nonempty
    by (simp add: env_answers_simps example_blocks exp1 connected_world_facts
        example_response_simps)
  note t2 = takeScreenshot_response_precedence
    [where cfg = example_config and e = env_link and w = connected_world
       and server = example_server and ?w1.0 = connected_world and cl = example_client
       and ?w2.0 = connected_world and opts = example_opts and res = link_response
       and t = "js ''See [shot](/tmp/out/a.png)''" and expected = ?exp,
     OF connected_setup]
  have cands: "candidates ?exp link_response = [js ''/tmp/out/a.png'', ?exp]"
    using t2 nonempty
    by (simp add: env_link_simps example_blocks example_link example_response_simps)
  have second: "fst (takeScreenshot example_config env_link example_opts connected_world)
       = Inr (Some \<lparr>savedPath = Some (js ''/tmp/out/a.png''), mimeType = None\<rparr>)"
    using t2
    by (simp add: env_link_simps example_blocks exp2 cands example_response_simps)
  from first second show ?thesis by simp
qed

text \<open>
  C6 as stated fails for a response with two image blocks of which the first has empty
  data: the response contains an image block with base64 data, yet nothing is decoded
  or written, and the call returns \<^verbatim>\<open>null\<close>.
\<close>

theorem first_image_block_decides:
  "spec_has_image_data two_images_response
   \<and> \<not> isError two_images_response
   \<and> fst (takeScreenshot example_config (env_answers two_images_response) example_opts
        connected_world) = Inr None
   \<and> writes (snd (takeScreenshot example_config (env_answers two_images_response) example_opts
        connected_world)) = []"
proof -
  let ?e = "env_answers two_images_response"
  have spec: "spec_has_image_data two_images_response"
    by (simp add: spec_has_image_data_def two_images_response_def image_block_def js_def)
  have ok: "\<not> isError two_images_response"
    by (simp add: two_images_response_def)
  have first: "imageBlock two_images_response = None
      \<or> (\<exists>b'. imageBlock two_images_response = Some b' \<and> (bdata b' = None \<or> bdata b' = Some []))"
    by (simp add: example_blocks example_response_simps)
  have exp: "expectedPath ?e example_server example_opts \<noteq> []"
    by (simp add: example_expectedPath env_answers_simps js_def)
  have "linkedPath two_images_response = None"
    by (simp add: linkedPath_def example_blocks)
  then have "find (access ?e) (candidates (expectedPath ?e example_server example_opts)
      two_images_response) = None"
    by (simp add: candidates_eq env_answers_simps)
  with takeScreenshot_scan [OF connected_setup _ _ ok first, of ?e example_opts]
  have "fst (takeScreenshot example_config ?e example_opts connected_world) = Inr None
      \<and> writes (snd (takeScreenshot example_config ?e example_opts connected_world)) = []"
    by (simp add: env_answers_simps connected_world_facts)
  with spec ok show ?thesis by simp
qed

section \<open>The start cache across screenshot requests\<close>

lemma interpret_response_promises:
  "startPromise (snd (interpret_response e expected res w)) = startPromise w"
  "clientPromise (snd (interpret_response e expected res w)) = clientPromise w"
  by (simp_all add: interpret_response_def Let_def logger_def split: option.splits)

lemma screenshot_try_promises:
  "startPromise (snd (screenshot_try e rel expected w)) = startPromise w"
  "clientPromise (snd (screenshot_try e rel expected w)) = clientPromise w"
  by (simp_all add: screenshot_try_def Let_def interpret_response_promises split: sum.splits)

lemma start_not_rejected_takeScreenshot:
  assumes "start_not_rejected w"
  shows "start_not_rejected (snd (takeScreenshot cfg e opts w))"
proof -
  obtain r1 w1 where s1: "ensureServer cfg e w = (r1, w1)"
    by (cases "ensureServer cfg e w")
  have w1: "start_not_rejected w1"
    using start_not_rejected_ensureServer [OF assms, of cfg e] by (simp add: s1)
  show ?thesis
  proof (cases r1)
    case (Inl err)
    with s1 w1 show ?thesis by (simp add: takeScreenshot_def)
  next
    case (Inr server)
    with s1 have s: "ensureServer cfg e w = (Inr server, w1)" by simp
    obtain r2 w2 where c2: "ensureClient e server w1 = (r2, w2)"
      by (cases "ensureClient e server w1")
    have w2: "start_not_rejected w2"
      using start_not_rejected_ensureClient [OF w1, of e server] by (simp add: c2)
    show ?thesis
    proof (cases r2)
      case (Inl err)
      with s c2 w2 show ?thesis by (simp add: takeScreenshot_def)
    next
      case (Inr cl)
      with c2 have c: "ensureClient e server w1 = (Inr cl, w2)" by simp
      obtain r3 w3
        where t: "screenshot_try e (relFileName e opts) (expectedPath e server opts) w2 = (r3, w3)"
        by (cases "screenshot_try e (relFileName e opts) (expectedPath e server opts) w2")
      have w3: "start_not_rejected w3"
        using w2 screenshot_try_promises(1)
          [of e "relFileName e opts" "expectedPath e server opts" w2]
        by (simp add: start_not_rejected_def t)
      show ?thesis
      proof (cases "mkdir e (path_dirname e (expectedPath e server opts))")
        case (Some err)
        with s c w2 show ?thesis by (simp add: takeScreenshot_def)
      next
        case None
        show ?thesis
          using w3
          by (cases r3)
             (simp_all add: takeScreenshot_after_setup [OF s c None] t
                start_not_rejected_def logger_def)
      qed
    qed
  qed
qed

end
